theory Spec2Isabelle
  imports Main "HOL-Library.Word"
begin

unbundle bit_operations_syntax

section \<open>Machine integers and the library types the player reads\<close>

text \<open>
  The player (\<^verbatim>\<open>vmix_player.cpp\<close>) works on \<^verbatim>\<open>int64_t\<close> timestamps and frame
  numbers and on \<^verbatim>\<open>int\<close> fields of the library structs. Both are words here:
  addition wraps, \<open>sint\<close> reads the two's complement value, and the C comparisons
  \<^verbatim>\<open><\<close>, \<^verbatim>\<open>>=\<close> on them are the signed orders \<open><s\<close> and \<open>\<le>s\<close>.
\<close>

type_synonym int64 = "64 word"
type_synonym int32 = "32 word"

definition INT64_MIN :: int64 where
  "INT64_MIN = 0x8000000000000000"

definition INT64_MAX :: int64 where
  "INT64_MAX = 0x7FFFFFFFFFFFFFFF"

text \<open>\<^verbatim>\<open>AV_NOPTS_VALUE\<close> is \<^verbatim>\<open>((int64_t)UINT64_C(0x8000000000000000))\<close> in libavutil.\<close>

definition AV_NOPTS_VALUE :: int64 where
  "AV_NOPTS_VALUE = 0x8000000000000000"

record AVRational =
  num :: int32
  den :: int32

text \<open>The fields of \<^verbatim>\<open>AVStream\<close> that the player reads.\<close>

record AVStream =
  codec_type :: int32
  avg_frame_rate :: AVRational
  r_frame_rate :: AVRational
  time_base :: AVRational

subsection \<open>libavutil's rational arithmetic\<close>

text \<open>
  \<^verbatim>\<open>av_inv_q\<close> swaps numerator and denominator. \<^verbatim>\<open>av_rescale_q(a, bq, cq)\<close> is
  \<^verbatim>\<open>av_rescale_rnd(a, bq.num * (int64_t)cq.den, cq.num * (int64_t)bq.den,
  AV_ROUND_NEAR_INF)\<close>. These two are library functions, taken by their documented
  contract: \<^verbatim>\<open>av_rescale_rnd(a, b, c, AV_ROUND_NEAR_INF)\<close> is \<open>a * b / c\<close> computed
  without intermediate overflow and rounded to the nearest integer, halfway cases away
  from zero; it returns \<^verbatim>\<open>INT64_MIN\<close> when \<open>c \<le> 0\<close> or \<open>b < 0\<close> or when the result is
  not representable; a negative \<open>a\<close> is rescaled as
  \<^verbatim>\<open>-(uint64_t)av_rescale_rnd(-FFMAX(a, -INT64_MAX), b, c, rnd)\<close>.
\<close>

definition av_inv_q :: "AVRational \<Rightarrow> AVRational" where
  "av_inv_q q = \<lparr>num = den q, den = num q\<rparr>"

definition rescale_nonneg :: "int \<Rightarrow> int \<Rightarrow> int \<Rightarrow> int64" where
  "rescale_nonneg a b c =
     (let r = c div 2; q = (a * b + r) div c
      in if q > 2 ^ 63 - 1 then INT64_MIN else word_of_int q)"

definition av_rescale_rnd_near_inf :: "int64 \<Rightarrow> int64 \<Rightarrow> int64 \<Rightarrow> int64" where
  "av_rescale_rnd_near_inf a b c =
     (if sint c \<le> 0 \<or> sint b < 0 then INT64_MIN
      else if sint a < 0
        then - rescale_nonneg (- max (sint a) (- (2 ^ 63 - 1))) (sint b) (sint c)
      else rescale_nonneg (sint a) (sint b) (sint c))"

definition av_rescale_q :: "int64 \<Rightarrow> AVRational \<Rightarrow> AVRational \<Rightarrow> int64" where
  "av_rescale_q a bq cq =
     (let b = (scast (num bq) :: int64) * scast (den cq);
          c = (scast (num cq) :: int64) * scast (den bq)
      in av_rescale_rnd_near_inf a b c)"

section \<open>TimebaseConverter\<close>

text \<open>
  \<^verbatim>\<open>frame_number_to_stream_ts\<close> (lines 75-80) and \<^verbatim>\<open>pts_to_frame_number\<close>
  (lines 82-87). The argument \<^verbatim>\<open>AVStream *st\<close> is the stream it points to.
\<close>

definition frame_number_to_stream_ts :: "int64 \<Rightarrow> AVStream \<Rightarrow> int64" where
  "frame_number_to_stream_ts frame_number st =
     (let afr = (if num (avg_frame_rate st) \<noteq> 0 then avg_frame_rate st else r_frame_rate st);
          afr = (if num afr = 0 \<or> den afr = 0 then \<lparr>num = 25, den = 1\<rparr> else afr);
          frame_time = av_inv_q afr
      in av_rescale_q frame_number frame_time (time_base st))"

definition pts_to_frame_number :: "int64 \<Rightarrow> AVStream \<Rightarrow> int64" where
  "pts_to_frame_number pts st =
     (let afr = (if num (avg_frame_rate st) \<noteq> 0 then avg_frame_rate st else r_frame_rate st);
          afr = (if num afr = 0 \<or> den afr = 0 then \<lparr>num = 25, den = 1\<rparr> else afr);
          frame_time = av_inv_q afr
      in av_rescale_q pts (time_base st) frame_time)"

text \<open>
  The rate both conversions end up with, written once after the words of the
  specification and of the two functions: the declared average rate when its numerator
  is not zero, else the stream's real base rate; 25/1 when the rate chosen so has a zero
  numerator or a zero denominator.
\<close>

definition effective_rate :: "AVStream \<Rightarrow> AVRational" where
  "effective_rate st =
     (if num (avg_frame_rate st) \<noteq> 0
      then (if den (avg_frame_rate st) = 0 then \<lparr>num = 25, den = 1\<rparr> else avg_frame_rate st)
      else (if num (r_frame_rate st) = 0 \<or> den (r_frame_rate st) = 0
            then \<lparr>num = 25, den = 1\<rparr> else r_frame_rate st))"

section \<open>The demuxer and the decoder, as the player drives them\<close>

text \<open>
  The fields of \<^verbatim>\<open>AVFrame\<close> that the player reads. A frame without a timestamp
  carries \<^verbatim>\<open>AV_NOPTS_VALUE\<close> in the field. The last field is not one of the
  library's: it says whether \<^verbatim>\<open>av_frame_clone\<close> of the frame succeeds; the call
  returns \<^verbatim>\<open>NULL\<close> when it cannot allocate.
\<close>

record AVFrame =
  width :: int32
  height :: int32
  format :: int32
  best_effort_timestamp :: int64
  pts :: int64
  clonable :: bool

definition av_frame_clone :: "AVFrame \<Rightarrow> AVFrame option" where
  "av_frame_clone frame = (if clonable frame then Some frame else None)"

text \<open>
  What one call of \<^verbatim>\<open>avcodec_receive_frame\<close> hands back while the decoder has
  output: a frame (return value 0) or a decoding error (a negative value other than
  \<^verbatim>\<open>AVERROR(EAGAIN)\<close>). With nothing buffered the call returns
  \<^verbatim>\<open>AVERROR(EAGAIN)\<close>; \<^verbatim>\<open>AVERROR_EOF\<close> needs a draining packet, which the player
  never sends.
\<close>

datatype recv = Frame AVFrame | DecodeError

text \<open>
  What \<^verbatim>\<open>avcodec_send_packet\<close> does with a packet: it fails, or it accepts the packet
  and the decoder's output grows by what the packet decodes to.
\<close>

datatype send = SendError | Decoded "recv list"

record AVPacket =
  stream_index :: int32
  decodes_to :: send

text \<open>
  The container: its streams, the packets \<^verbatim>\<open>av_read_frame\<close> will return from the
  current read position (at the end of the list the call returns a negative value), and
  where \<^verbatim>\<open>av_seek_frame(fmt_ctx, video_stream_idx, ts, AVSEEK_FLAG_BACKWARD)\<close> lands
  for a timestamp: \<open>None\<close> when the call fails, else the packets from the new position.
  A failed seek leaves the read position where it was.
\<close>

record AVFormatContext =
  streams :: "AVStream list"
  packets :: "AVPacket list"
  seek_backward :: "int64 \<Rightarrow> AVPacket list option"

text \<open>The decoder: the output it holds for the next \<^verbatim>\<open>avcodec_receive_frame\<close> calls.\<close>

record AVCodecContext =
  buffered :: "recv list"

definition av_seek_frame :: "AVFormatContext \<Rightarrow> int64 \<Rightarrow> AVFormatContext option" where
  "av_seek_frame fc ts =
     (case seek_backward fc ts of None \<Rightarrow> None | Some ps \<Rightarrow> Some (fc\<lparr>packets := ps\<rparr>))"

definition avcodec_flush_buffers :: "AVCodecContext \<Rightarrow> AVCodecContext" where
  "avcodec_flush_buffers dc = dc\<lparr>buffered := []\<rparr>"

text \<open>
  The conversion context records the source geometry and pixel format that
  \<^verbatim>\<open>sws_getContext\<close> was called with. The allocations of \<^verbatim>\<open>sws_getContext\<close>,
  \<^verbatim>\<open>av_packet_alloc\<close> and \<^verbatim>\<open>av_frame_alloc\<close> succeed in this model.
\<close>

record SwsContext =
  srcW :: int32
  srcH :: int32
  srcFormat :: int32

definition sws_getContext :: "int32 \<Rightarrow> int32 \<Rightarrow> int32 \<Rightarrow> SwsContext" where
  "sws_getContext w h fmt = \<lparr>srcW = w, srcH = h, srcFormat = fmt\<rparr>"

definition AV_PIX_FMT_NONE :: int32 where
  "AV_PIX_FMT_NONE = - 1"

definition AVMEDIA_TYPE_VIDEO :: int32 where
  "AVMEDIA_TYPE_VIDEO = 0"

section \<open>The player state\<close>

text \<open>
  \<^verbatim>\<open>struct FFPlayer\<close> (lines 20-38). Pointers are options. The field \<^verbatim>\<open>fps\<close> (a
  double, read only for the pacing delay) is left out, the struct's own
  \<^verbatim>\<open>avg_frame_rate\<close> is \<open>player_avg_frame_rate\<close>. Two ghost fields count calls:
  \<open>sws_builds\<close> those of \<^verbatim>\<open>sws_getContext\<close>, \<open>clone_failures\<close> those of
  \<^verbatim>\<open>av_frame_clone\<close> that returned \<^verbatim>\<open>NULL\<close>.
\<close>

record FFPlayer =
  fmt_ctx :: "AVFormatContext option"
  dec_ctx :: "AVCodecContext option"
  video_stream_idx :: int32
  video_stream :: "AVStream option"
  sws_ctx :: "SwsContext option"
  sws_src_w :: int32
  sws_src_h :: int32
  sws_src_fmt :: int32
  player_avg_frame_rate :: AVRational
  current_target_ts :: int64
  last_shown_pts :: int64
  sws_builds :: nat
  clone_failures :: nat

definition FFPlayer_init :: FFPlayer where
  "FFPlayer_init =
     \<lparr>fmt_ctx = None, dec_ctx = None, video_stream_idx = - 1, video_stream = None,
      sws_ctx = None, sws_src_w = - 1, sws_src_h = - 1, sws_src_fmt = AV_PIX_FMT_NONE,
      player_avg_frame_rate = \<lparr>num = 0, den = 1\<rparr>, current_target_ts = 0,
      last_shown_pts = AV_NOPTS_VALUE, sws_builds = 0, clone_failures = 0\<rparr>"

section \<open>ColorConverter\<close>

text \<open>
  The image \<^verbatim>\<open>avframe_to_cvmat\<close> returns (lines 46-73): its size, the frame whose
  planes \<^verbatim>\<open>sws_scale\<close> read and the context pointer \<^verbatim>\<open>sws_scale\<close> was given. The
  pixel values themselves are the library's work and are not modelled.
\<close>

record Mat =
  rows :: int32
  cols :: int32
  scaled_from :: AVFrame
  scaled_by :: "SwsContext option"

definition avframe_to_cvmat :: "AVFrame \<Rightarrow> FFPlayer \<Rightarrow> Mat \<times> FFPlayer" where
  "avframe_to_cvmat frame p =
     (let w = width frame; h = height frame; src_fmt = format frame;
          p = (if sws_ctx p = None \<or> sws_src_w p \<noteq> w \<or> sws_src_h p \<noteq> h
                  \<or> sws_src_fmt p \<noteq> src_fmt
               then p\<lparr>sws_ctx := Some (sws_getContext w h src_fmt),
                      sws_src_w := w, sws_src_h := h, sws_src_fmt := src_fmt,
                      sws_builds := sws_builds p + 1\<rparr>
               else p)
      in (\<lparr>rows = h, cols = w, scaled_from = frame, scaled_by = sws_ctx p\<rparr>, p))"

section \<open>SeekDecoder\<close>

text \<open>
  The inner loop of \<^verbatim>\<open>seek_and_decode_frame\<close> (lines 119-133) over the decoder's
  output: it stops at \<^verbatim>\<open>EAGAIN\<close> (nothing buffered), at a decoding error, or at the
  first frame whose timestamp reaches the target. For that frame (\<^verbatim>\<open>got = true\<close>) it
  returns what \<^verbatim>\<open>av_frame_clone\<close> gave for \<^verbatim>\<open>out_frame\<close>, which may be
  \<^verbatim>\<open>NULL\<close>, with the timestamp the frame was given; and in every case what the decoder
  still holds.
\<close>

fun seek_drain :: "int64 \<Rightarrow> int64 \<Rightarrow> recv list
    \<Rightarrow> (AVFrame option \<times> int64) option \<times> recv list" where
  "seek_drain last_pts target_ts [] = (None, [])"
| "seek_drain last_pts target_ts (DecodeError # q) = (None, q)"
| "seek_drain last_pts target_ts (Frame frame # q) =
     (let pts = (if best_effort_timestamp frame \<noteq> AV_NOPTS_VALUE
                 then best_effort_timestamp frame else pts frame);
          pts = (if pts = AV_NOPTS_VALUE then last_pts + 1 else pts)
      in if target_ts \<le>s pts then (Some (av_frame_clone frame, pts), q)
         else seek_drain last_pts target_ts q)"

text \<open>
  The outer loop (lines 109-134): read a packet, skip it when it belongs to another
  stream or when the decoder refuses it, else drain the decoder.
\<close>

fun seek_scan :: "int32 \<Rightarrow> int64 \<Rightarrow> int64 \<Rightarrow> AVPacket list \<Rightarrow> recv list
    \<Rightarrow> (AVFrame option \<times> int64) option \<times> AVPacket list \<times> recv list" where
  "seek_scan vidx last_pts target_ts [] q = (None, [], q)"
| "seek_scan vidx last_pts target_ts (packet # ps) q =
     (if stream_index packet \<noteq> vidx then seek_scan vidx last_pts target_ts ps q
      else (case decodes_to packet of
             SendError \<Rightarrow> seek_scan vidx last_pts target_ts ps q
           | Decoded out \<Rightarrow>
               (case seek_drain last_pts target_ts (q @ out) of
                  (Some got, q') \<Rightarrow> (Some got, ps, q')
                | (None, q') \<Rightarrow> seek_scan vidx last_pts target_ts ps q')))"

text \<open>
  \<^verbatim>\<open>seek_and_decode_frame\<close> (lines 92-136). When the scan has stopped at a frame, the
  function has set \<^verbatim>\<open>last_shown_pts\<close> (line 128) and returns \<^verbatim>\<open>out_frame\<close>,
  whatever the clone was.
\<close>

definition seek_and_decode_frame :: "FFPlayer \<Rightarrow> int64 \<Rightarrow> AVFrame option \<times> FFPlayer" where
  "seek_and_decode_frame p target_frame_number =
     (case fmt_ctx p of None \<Rightarrow> (None, p) | Some fc \<Rightarrow>
     (case dec_ctx p of None \<Rightarrow> (None, p) | Some dc \<Rightarrow>
     (case video_stream p of None \<Rightarrow> (None, p) | Some st \<Rightarrow>
        (let target_ts = frame_number_to_stream_ts target_frame_number st
         in (case av_seek_frame fc target_ts of
               None \<Rightarrow> (None, p)
             | Some fc \<Rightarrow>
                (let dc = avcodec_flush_buffers dc;
                     (got, ps, q) = seek_scan (video_stream_idx p) (last_shown_pts p) target_ts
                                      (packets fc) (buffered dc);
                     p = p\<lparr>fmt_ctx := Some (fc\<lparr>packets := ps\<rparr>),
                            dec_ctx := Some (dc\<lparr>buffered := q\<rparr>)\<rparr>
                 in (case got of
                       None \<Rightarrow> (None, p)
                     | Some (out_frame, ts) \<Rightarrow>
                         (out_frame,
                          p\<lparr>last_shown_pts := ts,
                            clone_failures :=
                              (if out_frame = None then clone_failures p + 1
                               else clone_failures p)\<rparr>))))))))"

section \<open>SequentialDecoder\<close>

text \<open>
  The inner loop of \<^verbatim>\<open>decode_next_frame\<close> (lines 155-165): at the first frame the
  function returns what \<^verbatim>\<open>av_frame_clone\<close> gave, which may be \<^verbatim>\<open>NULL\<close>.
\<close>

fun next_drain :: "int64 \<Rightarrow> recv list \<Rightarrow> (AVFrame option \<times> int64) option \<times> recv list" where
  "next_drain last_pts [] = (None, [])"
| "next_drain last_pts (DecodeError # q) = (None, q)"
| "next_drain last_pts (Frame frame # q) =
     (let pts = (if best_effort_timestamp frame \<noteq> AV_NOPTS_VALUE
                 then best_effort_timestamp frame else pts frame);
          pts = (if pts = AV_NOPTS_VALUE then last_pts + 1 else pts)
      in (Some (av_frame_clone frame, pts), q))"

fun next_scan :: "int32 \<Rightarrow> int64 \<Rightarrow> AVPacket list \<Rightarrow> recv list
    \<Rightarrow> (AVFrame option \<times> int64) option \<times> AVPacket list \<times> recv list" where
  "next_scan vidx last_pts [] q = (None, [], q)"
| "next_scan vidx last_pts (packet # ps) q =
     (if stream_index packet \<noteq> vidx then next_scan vidx last_pts ps q
      else (case decodes_to packet of
             SendError \<Rightarrow> next_scan vidx last_pts ps q
           | Decoded out \<Rightarrow>
               (case next_drain last_pts (q @ out) of
                  (Some got, q') \<Rightarrow> (Some got, ps, q')
                | (None, q') \<Rightarrow> next_scan vidx last_pts ps q')))"

text \<open>
  \<^verbatim>\<open>decode_next_frame\<close> (lines 138-168). At the first frame it sets
  \<^verbatim>\<open>last_shown_pts\<close> (line 162) and returns the clone, whatever it was.
\<close>

definition decode_next_frame :: "FFPlayer \<Rightarrow> AVFrame option \<times> FFPlayer" where
  "decode_next_frame p =
     (case fmt_ctx p of None \<Rightarrow> (None, p) | Some fc \<Rightarrow>
     (case dec_ctx p of None \<Rightarrow> (None, p) | Some dc \<Rightarrow>
        (let (got, ps, q) = next_scan (video_stream_idx p) (last_shown_pts p)
                              (packets fc) (buffered dc);
             p = p\<lparr>fmt_ctx := Some (fc\<lparr>packets := ps\<rparr>),
                    dec_ctx := Some (dc\<lparr>buffered := q\<rparr>)\<rparr>
         in (case got of
               None \<Rightarrow> (None, p)
             | Some (out_frame, ts) \<Rightarrow>
                 (out_frame,
                  p\<lparr>last_shown_pts := ts,
                    clone_failures :=
                      (if out_frame = None then clone_failures p + 1
                       else clone_failures p)\<rparr>)))))"

section \<open>PlaybackController\<close>

text \<open>
  What the library calls of the opening sequence in \<^verbatim>\<open>main\<close> (lines 181-207) return
  for the input file: the opened container or a failure, and whether each later call
  succeeds.
\<close>

record media_input =
  avformat_open_input :: "AVFormatContext option"
  avformat_find_stream_info :: bool
  avcodec_find_decoder :: bool
  avcodec_alloc_context3 :: bool
  avcodec_parameters_to_context :: bool
  avcodec_open2 :: bool

text \<open>One constructor for each \<^verbatim>\<open>return -1\<close> of the opening sequence.\<close>

datatype open_error =
    CouldNotOpenInput
  | StreamInfoFailed
  | NoVideoStream
  | DecoderNotFound
  | CodecContextAllocFailed
  | ParametersToContextFailed
  | CodecOpenFailed
  | CouldNotDecodeFirstFrame

text \<open>The stream search (lines 187-193): the first stream of video type, with its index.\<close>

fun find_video_stream :: "AVStream list \<Rightarrow> nat \<Rightarrow> (nat \<times> AVStream) option" where
  "find_video_stream [] i = None"
| "find_video_stream (s # ss) i =
     (if codec_type s = AVMEDIA_TYPE_VIDEO then Some (i, s) else find_video_stream ss (Suc i))"

text \<open>
  The locals of \<^verbatim>\<open>main\<close> that live across the command loop, and the content of the
  window (what \<^verbatim>\<open>cv::imshow\<close> was last given). The ghost field \<open>shown_after\<close>
  keeps the value \<^verbatim>\<open>last_shown_pts\<close> had before the call that returned the frame in
  the window: the timestamp of a frame without timestamps is made from it.
\<close>

record Controller =
  player :: FFPlayer
  current_frame :: int64
  playing :: bool
  should_quit :: bool
  window :: "Mat option"
  shown_after :: int64

text \<open>\<^verbatim>\<open>main\<close> from the construction of the player to the command loop (lines 179-228).\<close>

definition open_player :: "media_input \<Rightarrow> open_error + Controller" where
  "open_player inp =
     (let p = FFPlayer_init
      in (case avformat_open_input inp of None \<Rightarrow> Inl CouldNotOpenInput | Some fc \<Rightarrow>
         (let p = p\<lparr>fmt_ctx := Some fc\<rparr>
          in if \<not> avformat_find_stream_info inp then Inl StreamInfoFailed
             else (case find_video_stream (streams fc) 0 of
                     None \<Rightarrow> Inl NoVideoStream
                   | Some (i, st) \<Rightarrow>
            (let p = p\<lparr>video_stream_idx := of_nat i, video_stream := Some st\<rparr>
             in if video_stream_idx p <s 0 then Inl NoVideoStream
                else if \<not> avcodec_find_decoder inp then Inl DecoderNotFound
                else if \<not> avcodec_alloc_context3 inp then Inl CodecContextAllocFailed
                else if \<not> avcodec_parameters_to_context inp then Inl ParametersToContextFailed
                else if \<not> avcodec_open2 inp then Inl CodecOpenFailed
                else
                 (let p = p\<lparr>dec_ctx := Some \<lparr>buffered = []\<rparr>\<rparr>;
                      afr = (if num (avg_frame_rate st) \<noteq> 0 then avg_frame_rate st
                             else r_frame_rate st);
                      afr = (if num afr = 0 \<or> den afr = 0 then \<lparr>num = 25, den = 1\<rparr> else afr);
                      p = p\<lparr>player_avg_frame_rate := afr\<rparr>;
                      p = p\<lparr>last_shown_pts := AV_NOPTS_VALUE\<rparr>;
                      current_frame = 0;
                      before = last_shown_pts p
                  in (case seek_and_decode_frame p current_frame of
                        (None, p) \<Rightarrow> Inl CouldNotDecodeFirstFrame
                      | (Some frame, p) \<Rightarrow>
                          (let (img, p) = avframe_to_cvmat frame p
                           in Inr \<lparr>player = p,
                                   current_frame =
                                     pts_to_frame_number (last_shown_pts p) (the (video_stream p)),
                                   playing = False, should_quit = False,
                                   window = Some img, shown_after = before\<rparr>))))))))"

text \<open>
  One turn of the command loop (lines 231-271), for the value \<^verbatim>\<open>cv::waitKey\<close>
  returned. The character compared is \<^verbatim>\<open>static_cast<char>(key & 0xFF)\<close>.
\<close>

definition loop_body :: "Controller \<Rightarrow> int32 \<Rightarrow> Controller" where
  "loop_body c key =
     (if key = - 1 \<and> playing c then
        (case decode_next_frame (player c) of
           (None, p) \<Rightarrow> c\<lparr>player := p, playing := False\<rparr>
         | (Some nf, p) \<Rightarrow>
             (let (next_img, p) = avframe_to_cvmat nf p
              in c\<lparr>player := p,
                    current_frame := pts_to_frame_number (last_shown_pts p) (the (video_stream p)),
                    window := Some next_img,
                    shown_after := last_shown_pts (player c)\<rparr>))
      else
        (let ch = (ucast (key AND 0xFF) :: 8 word)
         in if key = 27 \<or> ch = of_char CHR ''q'' then c\<lparr>should_quit := True\<rparr>
            else if ch = of_char CHR '' '' then c\<lparr>playing := \<not> playing c\<rparr>
            else if ch = of_char CHR ''n'' \<or> key = 83 then
              (let target = current_frame c + 1
               in (case seek_and_decode_frame (player c) target of
                     (None, p) \<Rightarrow> c\<lparr>player := p, playing := False\<rparr>
                   | (Some nf, p) \<Rightarrow>
                       (let (next_img, p) = avframe_to_cvmat nf p
                        in c\<lparr>player := p,
                              current_frame :=
                                pts_to_frame_number (last_shown_pts p) (the (video_stream p)),
                              window := Some next_img, playing := False,
                              shown_after := last_shown_pts (player c)\<rparr>)))
            else if ch = of_char CHR ''b'' \<or> key = 81 then
              (let target = (if 0 <s current_frame c then current_frame c - 1 else 0)
               in (case seek_and_decode_frame (player c) target of
                     (None, p) \<Rightarrow> c\<lparr>player := p, playing := False\<rparr>
                   | (Some bf, p) \<Rightarrow>
                       (let (back_img, p) = avframe_to_cvmat bf p
                        in c\<lparr>player := p,
                              current_frame :=
                                pts_to_frame_number (last_shown_pts p) (the (video_stream p)),
                              window := Some back_img, playing := False,
                              shown_after := last_shown_pts (player c)\<rparr>)))
            else if ch = of_char CHR ''s'' then c\<lparr>playing := True\<rparr>
            else if ch = of_char CHR ''p'' then c\<lparr>playing := False\<rparr>
            else c))"

text \<open>The command loop (line 230), over the values \<^verbatim>\<open>cv::waitKey\<close> returns in turn.\<close>

fun command_loop :: "Controller \<Rightarrow> int32 list \<Rightarrow> Controller" where
  "command_loop c [] = c"
| "command_loop c (key # keys) =
     (if should_quit c then c else command_loop (loop_body c key) keys)"

section \<open>The specification's notions\<close>

text \<open>
  The effective timestamp as the specification words it (4.2): the best-effort timestamp
  if the container supplies one, else the frame's own timestamp, else
  \<open>lastShownTimestamp + 1\<close>.
\<close>

definition effective_timestamp :: "int64 \<Rightarrow> AVFrame \<Rightarrow> int64" where
  "effective_timestamp lastShownTimestamp f =
     (if best_effort_timestamp f \<noteq> AV_NOPTS_VALUE then best_effort_timestamp f
      else if pts f \<noteq> AV_NOPTS_VALUE then pts f
      else lastShownTimestamp + 1)"

text \<open>
  The frames the decoder yields when the packets of the container are read to the end:
  each packet of the selected stream that the decoder accepts is followed by receiving
  until the decoder has nothing more or reports an error.
\<close>

fun receive_all :: "recv list \<Rightarrow> AVFrame list \<times> recv list" where
  "receive_all [] = ([], [])"
| "receive_all (DecodeError # q) = ([], q)"
| "receive_all (Frame f # q) = (let (fs, q') = receive_all q in (f # fs, q'))"

fun yielded_frames :: "int32 \<Rightarrow> AVPacket list \<Rightarrow> recv list \<Rightarrow> AVFrame list" where
  "yielded_frames vidx [] q = []"
| "yielded_frames vidx (packet # ps) q =
     (if stream_index packet \<noteq> vidx then yielded_frames vidx ps q
      else (case decodes_to packet of
              SendError \<Rightarrow> yielded_frames vidx ps q
            | Decoded out \<Rightarrow>
                (let (fs, q') = receive_all (q @ out) in fs @ yielded_frames vidx ps q')))"

text \<open>
  The controller's frame number is the one derived, on the selected stream \<open>st\<close>, from
  the effective timestamp of the frame in the window; and \<^verbatim>\<open>last_shown_pts\<close> is that
  timestamp as long as no clone has failed.
\<close>

definition tracks :: "Controller \<Rightarrow> AVStream \<Rightarrow> bool" where
  "tracks c st \<longleftrightarrow> video_stream (player c) = Some st
     \<and> (case window c of
          None \<Rightarrow> False
        | Some m \<Rightarrow>
            current_frame c
              = pts_to_frame_number (effective_timestamp (shown_after c) (scaled_from m)) st
            \<and> (clone_failures (player c) = 0 \<longrightarrow>
                 last_shown_pts (player c)
                   = effective_timestamp (shown_after c) (scaled_from m)))"

text \<open>
  What a call of \<^verbatim>\<open>seek_and_decode_frame\<close> or \<^verbatim>\<open>decode_next_frame\<close> on the player
  \<open>p\<close> leaves in its result \<open>r\<close>: it passed without stopping at a frame, or it
  stopped at the frame \<open>f\<close>.
\<close>

definition stopped_at :: "FFPlayer \<Rightarrow> AVFrame option \<times> FFPlayer \<Rightarrow> AVFrame \<Rightarrow> bool" where
  "stopped_at p r f \<longleftrightarrow> fst r = av_frame_clone f
     \<and> last_shown_pts (snd r) = effective_timestamp (last_shown_pts p) f
     \<and> clone_failures (snd r) = (if clonable f then clone_failures p else clone_failures p + 1)"

definition passed :: "FFPlayer \<Rightarrow> AVFrame option \<times> FFPlayer \<Rightarrow> bool" where
  "passed p r \<longleftrightarrow> fst r = None \<and> last_shown_pts (snd r) = last_shown_pts p
     \<and> clone_failures (snd r) = clone_failures p"

text \<open>
  One turn of the command loop from \<open>c\<close> to \<open>c'\<close>: the window and the frame number
  stay, or a frame is shown and the frame number is made from its timestamp.
\<close>

definition shows_next :: "Controller \<Rightarrow> Controller \<Rightarrow> bool" where
  "shows_next c c' \<longleftrightarrow>
     (window c' = window c \<and> current_frame c' = current_frame c
        \<and> shown_after c' = shown_after c)
     \<or> (\<exists>m. window c' = Some m
           \<and> shown_after c' = last_shown_pts (player c)
           \<and> last_shown_pts (player c')
               = effective_timestamp (last_shown_pts (player c)) (scaled_from m)
           \<and> current_frame c'
               = pts_to_frame_number (last_shown_pts (player c'))
                   (the (video_stream (player c))))"

text \<open>The (width, height, sourceFormat) triple of a frame and of a conversion context.\<close>

definition frame_triple :: "AVFrame \<Rightarrow> int32 \<times> int32 \<times> int32" where
  "frame_triple f = (width f, height f, format f)"

definition context_triple :: "SwsContext \<Rightarrow> int32 \<times> int32 \<times> int32" where
  "context_triple c = (srcW c, srcH c, srcFormat c)"

text \<open>
  The player's cached triple is \<open>t\<close> and its conversion context was built for \<open>t\<close>.
\<close>

definition cached_for :: "FFPlayer \<Rightarrow> int32 \<times> int32 \<times> int32 \<Rightarrow> bool" where
  "cached_for p t \<longleftrightarrow> (sws_src_w p, sws_src_h p, sws_src_fmt p) = t
     \<and> map_option context_triple (sws_ctx p) = Some t"

text \<open>ColorConverter called on a sequence of frames, one after the other.\<close>

fun convert_all :: "FFPlayer \<Rightarrow> AVFrame list \<Rightarrow> Mat list \<times> FFPlayer" where
  "convert_all p [] = ([], p)"
| "convert_all p (f # fs) =
     (let (m, p) = avframe_to_cvmat f p; (ms, p) = convert_all p fs in (m # ms, p))"

section \<open>Concrete inputs\<close>

text \<open>
  The stream of the specification's scenario (8): 25 frames per second, time base
  1/90000, so that one frame lasts 3600 ticks.
\<close>

definition scenario_stream :: AVStream where
  "scenario_stream =
     \<lparr>codec_type = 0, avg_frame_rate = \<lparr>num = 25, den = 1\<rparr>,
      r_frame_rate = \<lparr>num = 25, den = 1\<rparr>, time_base = \<lparr>num = 1, den = 90000\<rparr>\<rparr>"

text \<open>The same rate on a time base of 1/10: a tick lasts two and a half frames.\<close>

definition coarse_stream :: AVStream where
  "coarse_stream = scenario_stream\<lparr>time_base := \<lparr>num = 1, den = 10\<rparr>\<rparr>"

text \<open>A stream that declares no average rate and a real base rate of 30/1.\<close>

definition base_rate_stream :: AVStream where
  "base_rate_stream =
     scenario_stream\<lparr>avg_frame_rate := \<lparr>num = 0, den = 1\<rparr>,
                      r_frame_rate := \<lparr>num = 30, den = 1\<rparr>\<rparr>"

text \<open>Streams whose declared rates are invalid in the two ways the code tests.\<close>

definition no_rate_stream :: AVStream where
  "no_rate_stream =
     scenario_stream\<lparr>avg_frame_rate := \<lparr>num = 0, den = 1\<rparr>,
                      r_frame_rate := \<lparr>num = 0, den = 0\<rparr>\<rparr>"

definition zero_den_stream :: AVStream where
  "zero_den_stream = scenario_stream\<lparr>avg_frame_rate := \<lparr>num = 30, den = 0\<rparr>\<rparr>"

text \<open>
  A 2x2 frame with the given timestamp in both fields, one without timestamp, and one
  that \<^verbatim>\<open>av_frame_clone\<close> cannot copy.
\<close>

definition frame_at :: "int64 \<Rightarrow> AVFrame" where
  "frame_at t =
     \<lparr>width = 2, height = 2, format = 0, best_effort_timestamp = t, pts = t,
      clonable = True\<rparr>"

definition untimed_frame :: AVFrame where
  "untimed_frame = frame_at AV_NOPTS_VALUE"

definition unclonable_frame_at :: "int64 \<Rightarrow> AVFrame" where
  "unclonable_frame_at t = (frame_at t)\<lparr>clonable := False\<rparr>"

text \<open>A packet of stream 0 that decodes to one frame.\<close>

definition video_packet :: "AVFrame \<Rightarrow> AVPacket" where
  "video_packet f = \<lparr>stream_index = 0, decodes_to = Decoded [Frame f]\<rparr>"

text \<open>
  A container of one video stream whose only keyframe is the first frame: every
  backward seek lands at the start.
\<close>

definition container_of :: "AVFrame list \<Rightarrow> AVFormatContext" where
  "container_of fs =
     \<lparr>streams = [scenario_stream], packets = map video_packet fs,
      seek_backward = (\<lambda>ts. Some (map video_packet fs))\<rparr>"

text \<open>The same container on a source that cannot seek.\<close>

definition unseekable_container_of :: "AVFrame list \<Rightarrow> AVFormatContext" where
  "unseekable_container_of fs = (container_of fs)\<lparr>seek_backward := (\<lambda>ts. None)\<rparr>"

definition input_of :: "AVFormatContext \<Rightarrow> media_input" where
  "input_of fc =
     \<lparr>avformat_open_input = Some fc, avformat_find_stream_info = True,
      avcodec_find_decoder = True, avcodec_alloc_context3 = True,
      avcodec_parameters_to_context = True, avcodec_open2 = True\<rparr>"

text \<open>The player as \<^verbatim>\<open>main\<close> has set it up when it asks for the first frame.\<close>

definition player_on :: "AVFormatContext \<Rightarrow> FFPlayer" where
  "player_on fc =
     FFPlayer_init\<lparr>fmt_ctx := Some fc, dec_ctx := Some \<lparr>buffered = []\<rparr>,
                   video_stream_idx := 0, video_stream := Some scenario_stream,
                   player_avg_frame_rate := \<lparr>num = 25, den = 1\<rparr>\<rparr>"

section \<open>Evaluation rules for the concrete inputs\<close>

lemmas input_defs = scenario_stream_def coarse_stream_def base_rate_stream_def
  no_rate_stream_def zero_den_stream_def frame_at_def untimed_frame_def
  unclonable_frame_at_def video_packet_def
  container_of_def unseekable_container_of_def input_of_def player_on_def FFPlayer_init_def

lemmas run_defs = seek_and_decode_frame_def decode_next_frame_def av_seek_frame_def
  av_frame_clone_def
  avcodec_flush_buffers_def frame_number_to_stream_ts_def pts_to_frame_number_def av_inv_q_def
  av_rescale_q_def av_rescale_rnd_near_inf_def rescale_nonneg_def Let_def AV_NOPTS_VALUE_def
  avframe_to_cvmat_def sws_getContext_def AV_PIX_FMT_NONE_def AVMEDIA_TYPE_VIDEO_def
  word_sle_eq word_sless_alt

section \<open>The two conversions and the rescaling\<close>

lemma fts_effective:
  "frame_number_to_stream_ts n st = av_rescale_q n (av_inv_q (effective_rate st)) (time_base st)"
  by (simp add: frame_number_to_stream_ts_def effective_rate_def Let_def)

lemma ptf_effective:
  "pts_to_frame_number t st = av_rescale_q t (time_base st) (av_inv_q (effective_rate st))"
  by (simp add: pts_to_frame_number_def effective_rate_def Let_def)

lemma sint_scast_32_64: "sint (scast (x :: 32 word) :: 64 word) = sint x"
  by (simp add: sint_up_scast is_up)

lemma sint32_bounds: "- (2 ^ 31) \<le> sint (x :: 32 word) \<and> sint x < 2 ^ 31"
  using sint_ge [of x] sint_lt [of x] by simp

lemma prod_bound:
  fixes a b :: int
  assumes "- (2 ^ 31) \<le> a" "a < 2 ^ 31" "- (2 ^ 31) \<le> b" "b < 2 ^ 31"
  shows "- (2 ^ 62) \<le> a * b \<and> a * b \<le> 2 ^ 62"
proof -
  have "\<bar>a\<bar> \<le> 2 ^ 31" "\<bar>b\<bar> \<le> 2 ^ 31" using assms by auto
  then have "\<bar>a\<bar> * \<bar>b\<bar> \<le> 2 ^ 31 * 2 ^ 31"
    by (intro mult_mono) auto
  then have "\<bar>a * b\<bar> \<le> 2 ^ 62" by (simp add: abs_mult)
  then show ?thesis by auto
qed

lemma sint_scast_mult:
  "sint ((scast (x :: 32 word) :: 64 word) * scast (y :: 32 word)) = sint x * sint y"
proof -
  have b: "- (2 ^ 62) \<le> sint x * sint y \<and> sint x * sint y \<le> 2 ^ 62"
    using prod_bound sint32_bounds by blast
  have "sint ((scast x :: 64 word) * scast y) = signed_take_bit 63 (sint x * sint y)"
    by (simp add: sint_word_ariths sint_scast_32_64)
  also have "\<dots> = sint x * sint y"
    using b by (intro signed_take_bit_int_eq_self) auto
  finally show ?thesis .
qed

lemma sint_word_of_int_64:
  "- (2 ^ 63) \<le> q \<Longrightarrow> q \<le> 2 ^ 63 - 1 \<Longrightarrow> sint (word_of_int q :: 64 word) = q"
  by (simp add: sint_sbintrunc' signed_take_bit_int_eq_self)

lemma av_rescale_q_nonneg:
  assumes "0 \<le> sint a"
    and "0 < sint (num cq) * sint (den bq)"
    and "0 \<le> sint (num bq) * sint (den cq)"
    and "(sint a * (sint (num bq) * sint (den cq)) + (sint (num cq) * sint (den bq)) div 2)
           div (sint (num cq) * sint (den bq)) \<le> 2 ^ 63 - 1"
  shows "sint (av_rescale_q a bq cq) =
     (sint a * (sint (num bq) * sint (den cq)) + (sint (num cq) * sint (den bq)) div 2)
           div (sint (num cq) * sint (den bq))"
proof -
  let ?B = "sint (num bq) * sint (den cq)"
  let ?C = "sint (num cq) * sint (den bq)"
  let ?q = "(sint a * ?B + ?C div 2) div ?C"
  have "0 \<le> sint a * ?B + ?C div 2" using assms by simp
  then have q0: "0 \<le> ?q" using assms(2) by (simp add: pos_imp_zdiv_nonneg_iff)
  have "av_rescale_q a bq cq = word_of_int ?q"
    using assms q0
    by (simp add: av_rescale_q_def av_rescale_rnd_near_inf_def rescale_nonneg_def Let_def
        sint_scast_mult)
  then show ?thesis using q0 assms(4) by (simp add: sint_word_of_int_64)
qed

lemma round_trip_int:
  fixes n b c :: int
  assumes "0 \<le> n" "0 < c" "c \<le> b"
  shows "(((n * b + c div 2) div c) * c + b div 2) div b = n"
proof (cases "b = c")
  case True
  have "(n * c + c div 2) div c = n" using assms(2) by simp
  then show ?thesis using True assms(2) by simp
next
  case False
  then have cb: "c < b" using assms by simp
  define X where "X = n * b"
  define t where "t = (X + c div 2) div c"
  define Y where "Y = t * c"
  have "Y + (X + c div 2) mod c = X + c div 2" unfolding Y_def t_def by simp
  moreover have "0 \<le> (X + c div 2) mod c" "(X + c div 2) mod c < c" using assms(2) by simp_all
  ultimately have lo: "X \<le> Y + b div 2" and hi: "Y + b div 2 < X + b"
    using cb assms(2) by linarith+
  have "(Y + b div 2) div b = n"
  proof (rule int_div_pos_eq)
    show "Y + b div 2 = b * n + (Y + b div 2 - X)" by (simp add: X_def mult.commute)
    show "0 \<le> Y + b div 2 - X" using lo by simp
    show "Y + b div 2 - X < b" using hi by simp
  qed
  then show ?thesis by (simp add: Y_def t_def X_def)
qed


lemma av_rescale_q_overflow:
  assumes "0 \<le> sint a"
    and "0 < sint (num cq) * sint (den bq)"
    and "0 \<le> sint (num bq) * sint (den cq)"
    and "av_rescale_q a bq cq \<noteq> INT64_MIN"
  shows "(sint a * (sint (num bq) * sint (den cq)) + (sint (num cq) * sint (den bq)) div 2)
           div (sint (num cq) * sint (den bq)) \<le> 2 ^ 63 - 1"
proof (rule ccontr)
  assume "\<not> ?thesis"
  then have "av_rescale_q a bq cq = INT64_MIN"
    using assms(1-3)
    by (simp add: av_rescale_q_def av_rescale_rnd_near_inf_def rescale_nonneg_def Let_def
        sint_scast_mult)
  with assms(4) show False by simp
qed

section \<open>The scans and the frames the decoder yields\<close>

lemma seek_drain_Frame:
  "seek_drain lp tgt (Frame f # q) =
     (if tgt \<le>s effective_timestamp lp f
      then (Some (av_frame_clone f, effective_timestamp lp f), q)
      else seek_drain lp tgt q)"
  by (simp add: effective_timestamp_def Let_def)

lemma next_drain_Frame:
  "next_drain lp (Frame f # q) = (Some (av_frame_clone f, effective_timestamp lp f), q)"
  by (simp add: effective_timestamp_def Let_def)

lemma find_append:
  "List.find P (xs @ ys) = (case List.find P xs of None \<Rightarrow> List.find P ys | Some x \<Rightarrow> Some x)"
  by (induction xs) auto

lemma seek_drain_find:
  "fst (seek_drain lp tgt q) =
     map_option (\<lambda>f. (av_frame_clone f, effective_timestamp lp f))
       (List.find (\<lambda>f. tgt \<le>s effective_timestamp lp f) (fst (receive_all q)))"
proof (induction q)
  case Nil
  show ?case by simp
next
  case (Cons r q)
  show ?case
  proof (cases r)
    case (Frame f)
    with Cons show ?thesis
      by (simp add: seek_drain_Frame del: seek_drain.simps(3) split: prod.splits)
  next
    case DecodeError
    then show ?thesis by simp
  qed
qed

lemma seek_drain_rest:
  "fst (seek_drain lp tgt q) = None \<Longrightarrow> snd (seek_drain lp tgt q) = snd (receive_all q)"
proof (induction q)
  case Nil
  show ?case by simp
next
  case (Cons r q)
  show ?case
  proof (cases r)
    case (Frame f)
    with Cons show ?thesis
      by (simp add: seek_drain_Frame del: seek_drain.simps(3) split: prod.splits if_splits)
  next
    case DecodeError
    then show ?thesis by simp
  qed
qed

lemma seek_scan_find:
  "fst (seek_scan vidx lp tgt ps q) =
     map_option (\<lambda>f. (av_frame_clone f, effective_timestamp lp f))
       (List.find (\<lambda>f. tgt \<le>s effective_timestamp lp f) (yielded_frames vidx ps q))"
proof (induction ps arbitrary: q)
  case Nil
  show ?case by simp
next
  case (Cons pkt ps)
  show ?case
  proof (cases "stream_index pkt \<noteq> vidx")
    case True
    with Cons show ?thesis by simp
  next
    case same: False
    show ?thesis
    proof (cases "decodes_to pkt")
      case SendError
      with same Cons show ?thesis by simp
    next
      case (Decoded out)
      obtain got q' where d: "seek_drain lp tgt (q @ out) = (got, q')"
        by (cases "seek_drain lp tgt (q @ out)")
      obtain fs q'' where r: "receive_all (q @ out) = (fs, q'')"
        by (cases "receive_all (q @ out)")
      have g: "got = map_option (\<lambda>f. (av_frame_clone f, effective_timestamp lp f))
                 (List.find (\<lambda>f. tgt \<le>s effective_timestamp lp f) fs)"
        using seek_drain_find [of lp tgt "q @ out"] d r by simp
      show ?thesis
      proof (cases got)
        case None
        then have "q' = q''" using seek_drain_rest [of lp tgt "q @ out"] d r by simp
        with None g same Decoded d r Cons show ?thesis
          by (simp add: find_append)
      next
        case (Some a)
        with g same Decoded d r show ?thesis
          by (auto simp: find_append split: option.splits)
      qed
    qed
  qed
qed

lemma seek_scan_stop:
  "fst (seek_scan vidx lp tgt ps q) = Some (out, ts) \<Longrightarrow>
     \<exists>f. out = av_frame_clone f \<and> ts = effective_timestamp lp f"
  by (auto simp: seek_scan_find)

lemma next_drain_stop:
  "fst (next_drain lp q) = Some (out, ts) \<Longrightarrow>
     \<exists>f. out = av_frame_clone f \<and> ts = effective_timestamp lp f"
  by (cases "(lp, q)" rule: next_drain.cases) (auto simp: effective_timestamp_def Let_def)

lemma next_scan_stop:
  "fst (next_scan vidx lp ps q) = Some (out, ts) \<Longrightarrow>
     \<exists>f. out = av_frame_clone f \<and> ts = effective_timestamp lp f"
proof (induction ps arbitrary: q)
  case Nil
  then show ?case by simp
next
  case (Cons pkt ps)
  show ?case
  proof (cases "stream_index pkt \<noteq> vidx")
    case True
    with Cons show ?thesis by simp
  next
    case same: False
    show ?thesis
    proof (cases "decodes_to pkt")
      case SendError
      with same Cons show ?thesis by simp
    next
      case (Decoded out')
      obtain got q' where d: "next_drain lp (q @ out') = (got, q')"
        by (cases "next_drain lp (q @ out')")
      show ?thesis
      proof (cases got)
        case None
        with same Decoded d Cons show ?thesis by simp
      next
        case (Some a)
        with same Decoded d Cons.prems have "got = Some (out, ts)" by simp
        then show ?thesis using next_drain_stop [of lp "q @ out'" out ts] d by simp
      qed
    qed
  qed
qed


lemma seek_and_decode_frame_outcome:
  "passed p (seek_and_decode_frame p n) \<or> (\<exists>f. stopped_at p (seek_and_decode_frame p n) f)"
proof -
  have "\<exists>f. out = av_frame_clone f \<and> ts = effective_timestamp (last_shown_pts p) f"
    if "seek_scan vidx (last_shown_pts p) tgt ps q = (Some (out, ts), r)" for vidx tgt ps q out ts r
    using seek_scan_stop [of vidx "last_shown_pts p" tgt ps q out ts] that by simp
  then show ?thesis
    by (fastforce simp: seek_and_decode_frame_def passed_def stopped_at_def av_frame_clone_def
        Let_def split: option.splits prod.splits if_splits)
qed

lemma decode_next_frame_outcome:
  "passed p (decode_next_frame p) \<or> (\<exists>f. stopped_at p (decode_next_frame p) f)"
proof -
  have "\<exists>f. out = av_frame_clone f \<and> ts = effective_timestamp (last_shown_pts p) f"
    if "next_scan vidx (last_shown_pts p) ps q = (Some (out, ts), r)" for vidx ps q out ts r
    using next_scan_stop [of vidx "last_shown_pts p" ps q out ts] that by simp
  then show ?thesis
    by (fastforce simp: decode_next_frame_def passed_def stopped_at_def av_frame_clone_def
        Let_def split: option.splits prod.splits if_splits)
qed

lemma outcome_delivered:
  assumes "passed p r \<or> (\<exists>f. stopped_at p r f)" and "fst r = Some g"
  shows "last_shown_pts (snd r) = effective_timestamp (last_shown_pts p) g"
    and "clone_failures (snd r) = clone_failures p"
  using assms by (auto simp: passed_def stopped_at_def av_frame_clone_def split: if_splits)

lemma outcome_none:
  assumes "passed p r \<or> (\<exists>f. stopped_at p r f)" and "fst r = None"
    and "clone_failures (snd r) = 0"
  shows "last_shown_pts (snd r) = last_shown_pts p" and "clone_failures p = 0"
  using assms by (auto simp: passed_def stopped_at_def av_frame_clone_def split: if_splits)

lemma outcome_failures:
  assumes "passed p r \<or> (\<exists>f. stopped_at p r f)"
  shows "clone_failures p \<le> clone_failures (snd r)"
  using assms by (auto simp: passed_def stopped_at_def split: if_splits)

lemma seek_and_decode_frame_found:
  assumes "fmt_ctx p = Some fc" "dec_ctx p = Some dc" "video_stream p = Some st"
    and "seek_backward fc (frame_number_to_stream_ts n st) = Some ps"
  shows "fst (seek_and_decode_frame p n) =
     Option.bind
       (List.find (\<lambda>f. frame_number_to_stream_ts n st
                          \<le>s effective_timestamp (last_shown_pts p) f)
          (yielded_frames (video_stream_idx p) ps []))
       av_frame_clone"
    and "last_shown_pts (snd (seek_and_decode_frame p n)) =
     (case List.find (\<lambda>f. frame_number_to_stream_ts n st
                          \<le>s effective_timestamp (last_shown_pts p) f)
          (yielded_frames (video_stream_idx p) ps []) of
        None \<Rightarrow> last_shown_pts p
      | Some f \<Rightarrow> effective_timestamp (last_shown_pts p) f)"
proof -
  let ?tgt = "frame_number_to_stream_ts n st"
  let ?found = "List.find (\<lambda>f. ?tgt \<le>s effective_timestamp (last_shown_pts p) f)
       (yielded_frames (video_stream_idx p) ps [])"
  obtain got ps' q where s: "seek_scan (video_stream_idx p) (last_shown_pts p) ?tgt ps [] = (got, ps', q)"
    by (cases "seek_scan (video_stream_idx p) (last_shown_pts p) ?tgt ps []")
  have g: "got = map_option (\<lambda>f. (av_frame_clone f, effective_timestamp (last_shown_pts p) f)) ?found"
    using seek_scan_find [of "video_stream_idx p" "last_shown_pts p" ?tgt ps "[]"] s by simp
  have r: "seek_and_decode_frame p n =
     (case got of
        None \<Rightarrow> (None, p\<lparr>fmt_ctx := Some (fc\<lparr>packets := ps'\<rparr>),
                           dec_ctx := Some (dc\<lparr>buffered := q\<rparr>)\<rparr>)
      | Some (out, ts) \<Rightarrow>
          (out, p\<lparr>fmt_ctx := Some (fc\<lparr>packets := ps'\<rparr>),
                   dec_ctx := Some (dc\<lparr>buffered := q\<rparr>),
                   last_shown_pts := ts,
                   clone_failures := (if out = None then clone_failures p + 1
                                      else clone_failures p)\<rparr>))"
    using assms s
    by (simp add: seek_and_decode_frame_def av_seek_frame_def avcodec_flush_buffers_def Let_def
        split: option.splits prod.splits)
  show "fst (seek_and_decode_frame p n) = Option.bind ?found av_frame_clone"
    by (cases ?found) (simp_all add: r g)
  show "last_shown_pts (snd (seek_and_decode_frame p n)) =
     (case ?found of None \<Rightarrow> last_shown_pts p
      | Some f \<Rightarrow> effective_timestamp (last_shown_pts p) f)"
    by (cases ?found) (simp_all add: r g)
qed

lemma seek_and_decode_frame_seek_failed:
  assumes "fmt_ctx p = Some fc" "dec_ctx p = Some dc" "video_stream p = Some st"
    and "seek_backward fc (frame_number_to_stream_ts n st) = None"
  shows "seek_and_decode_frame p n = (None, p)"
  using assms by (simp add: seek_and_decode_frame_def av_seek_frame_def)

lemma seek_and_decode_frame_keeps:
  "video_stream (snd (seek_and_decode_frame p n)) = video_stream p"
  "video_stream_idx (snd (seek_and_decode_frame p n)) = video_stream_idx p"
  "sws_ctx (snd (seek_and_decode_frame p n)) = sws_ctx p"
  "player_avg_frame_rate (snd (seek_and_decode_frame p n)) = player_avg_frame_rate p"
  by (auto simp: seek_and_decode_frame_def Let_def split: option.splits prod.splits)

lemma decode_next_frame_keeps:
  "video_stream (snd (decode_next_frame p)) = video_stream p"
  "video_stream_idx (snd (decode_next_frame p)) = video_stream_idx p"
  by (auto simp: decode_next_frame_def Let_def split: option.splits prod.splits)

lemma avframe_to_cvmat_keeps:
  "video_stream (snd (avframe_to_cvmat f p)) = video_stream p"
  "last_shown_pts (snd (avframe_to_cvmat f p)) = last_shown_pts p"
  "player_avg_frame_rate (snd (avframe_to_cvmat f p)) = player_avg_frame_rate p"
  "clone_failures (snd (avframe_to_cvmat f p)) = clone_failures p"
  "scaled_from (fst (avframe_to_cvmat f p)) = f"
  by (simp_all add: avframe_to_cvmat_def Let_def)

section \<open>The controller keeps the frame number on the frame shown\<close>

lemma tracks_flags [simp]:
  "tracks (c\<lparr>should_quit := b\<rparr>) st = tracks c st"
  "tracks (c\<lparr>playing := b\<rparr>) st = tracks c st"
  by (cases "window c"; simp add: tracks_def)+

lemma tracks_passed:
  assumes "tracks c st" and "video_stream p' = video_stream (player c)"
    and "passed (player c) r \<or> (\<exists>f. stopped_at (player c) r f)"
    and "r = (None, p')"
  shows "tracks (c\<lparr>player := p', playing := False\<rparr>) st"
proof -
  have "last_shown_pts p' = last_shown_pts (player c) \<and> clone_failures (player c) = 0"
    if "clone_failures p' = 0"
    using outcome_none [OF assms(3)] assms(4) that by simp
  then show ?thesis
    using assms(1,2) by (auto simp: tracks_def split: option.splits)
qed

lemma step_seek_tracks:
  assumes "tracks c st"
  shows "tracks (case seek_and_decode_frame (player c) target of
                   (None, p) \<Rightarrow> c\<lparr>player := p, playing := False\<rparr>
                 | (Some nf, p) \<Rightarrow>
                     (let (next_img, p) = avframe_to_cvmat nf p
                      in c\<lparr>player := p,
                            current_frame :=
                              pts_to_frame_number (last_shown_pts p) (the (video_stream p)),
                            window := Some next_img, playing := False,
                            shown_after := last_shown_pts (player c)\<rparr>)) st"
proof -
  obtain r p' where s: "seek_and_decode_frame (player c) target = (r, p')"
    by (cases "seek_and_decode_frame (player c) target")
  have v: "video_stream p' = video_stream (player c)"
    using seek_and_decode_frame_keeps(1) [of "player c" target] s by simp
  have o: "passed (player c) (r, p') \<or> (\<exists>f. stopped_at (player c) (r, p') f)"
    using seek_and_decode_frame_outcome [of "player c" target] s by simp
  have vs: "video_stream (player c) = Some st" using assms by (simp add: tracks_def)
  show ?thesis
  proof (cases r)
    case None
    then show ?thesis using tracks_passed [OF assms v o] s by simp
  next
    case (Some nf)
    have "last_shown_pts p' = effective_timestamp (last_shown_pts (player c)) nf"
      using outcome_delivered(1) [OF o, of nf] Some by simp
    then show ?thesis
      using s Some vs v by (simp add: tracks_def split_beta avframe_to_cvmat_keeps)
  qed
qed

lemma step_next_tracks:
  assumes "tracks c st"
  shows "tracks (case decode_next_frame (player c) of
                   (None, p) \<Rightarrow> c\<lparr>player := p, playing := False\<rparr>
                 | (Some nf, p) \<Rightarrow>
                     (let (next_img, p) = avframe_to_cvmat nf p
                      in c\<lparr>player := p,
                            current_frame :=
                              pts_to_frame_number (last_shown_pts p) (the (video_stream p)),
                            window := Some next_img,
                            shown_after := last_shown_pts (player c)\<rparr>)) st"
proof -
  obtain r p' where s: "decode_next_frame (player c) = (r, p')"
    by (cases "decode_next_frame (player c)")
  have v: "video_stream p' = video_stream (player c)"
    using decode_next_frame_keeps(1) [of "player c"] s by simp
  have o: "passed (player c) (r, p') \<or> (\<exists>f. stopped_at (player c) (r, p') f)"
    using decode_next_frame_outcome [of "player c"] s by simp
  have vs: "video_stream (player c) = Some st" using assms by (simp add: tracks_def)
  show ?thesis
  proof (cases r)
    case None
    then show ?thesis using tracks_passed [OF assms v o] s by simp
  next
    case (Some nf)
    have "last_shown_pts p' = effective_timestamp (last_shown_pts (player c)) nf"
      using outcome_delivered(1) [OF o, of nf] Some by simp
    then show ?thesis
      using s Some vs v by (simp add: tracks_def split_beta avframe_to_cvmat_keeps)
  qed
qed

lemma tracks_if:
  "(P \<Longrightarrow> tracks a st) \<Longrightarrow> (\<not> P \<Longrightarrow> tracks b st) \<Longrightarrow> tracks (if P then a else b) st"
  by simp

lemma loop_body_tracks:
  assumes "tracks c st"
  shows "tracks (loop_body c key) st"
  unfolding loop_body_def Let_def
  by (intro tracks_if step_seek_tracks [unfolded Let_def] step_next_tracks [unfolded Let_def])
     (simp_all only: tracks_flags assms)

lemma command_loop_tracks:
  "tracks c st \<Longrightarrow> tracks (command_loop c keys) st"
  by (induction keys arbitrary: c) (simp_all add: loop_body_tracks)

lemma shows_next_flags [simp]:
  "shows_next c (c\<lparr>should_quit := b\<rparr>)"
  "shows_next c (c\<lparr>playing := b\<rparr>)"
  "shows_next c c"
  by (simp_all add: shows_next_def)

lemma step_seek_shows:
  "shows_next c (case seek_and_decode_frame (player c) target of
                   (None, p) \<Rightarrow> c\<lparr>player := p, playing := False\<rparr>
                 | (Some nf, p) \<Rightarrow>
                     (let (next_img, p) = avframe_to_cvmat nf p
                      in c\<lparr>player := p,
                            current_frame :=
                              pts_to_frame_number (last_shown_pts p) (the (video_stream p)),
                            window := Some next_img, playing := False,
                            shown_after := last_shown_pts (player c)\<rparr>))"
proof -
  obtain r p' where s: "seek_and_decode_frame (player c) target = (r, p')"
    by (cases "seek_and_decode_frame (player c) target")
  have v: "video_stream p' = video_stream (player c)"
    using seek_and_decode_frame_keeps(1) [of "player c" target] s by simp
  have o: "passed (player c) (r, p') \<or> (\<exists>f. stopped_at (player c) (r, p') f)"
    using seek_and_decode_frame_outcome [of "player c" target] s by simp
  show ?thesis
  proof (cases r)
    case None
    then show ?thesis using s by (simp add: shows_next_def)
  next
    case (Some nf)
    have "last_shown_pts p' = effective_timestamp (last_shown_pts (player c)) nf"
      using outcome_delivered(1) [OF o, of nf] Some by simp
    then show ?thesis
      using s Some v by (simp add: shows_next_def split_beta avframe_to_cvmat_keeps)
  qed
qed

lemma step_next_shows:
  "shows_next c (case decode_next_frame (player c) of
                   (None, p) \<Rightarrow> c\<lparr>player := p, playing := False\<rparr>
                 | (Some nf, p) \<Rightarrow>
                     (let (next_img, p) = avframe_to_cvmat nf p
                      in c\<lparr>player := p,
                            current_frame :=
                              pts_to_frame_number (last_shown_pts p) (the (video_stream p)),
                            window := Some next_img,
                            shown_after := last_shown_pts (player c)\<rparr>))"
proof -
  obtain r p' where s: "decode_next_frame (player c) = (r, p')"
    by (cases "decode_next_frame (player c)")
  have v: "video_stream p' = video_stream (player c)"
    using decode_next_frame_keeps(1) [of "player c"] s by simp
  have o: "passed (player c) (r, p') \<or> (\<exists>f. stopped_at (player c) (r, p') f)"
    using decode_next_frame_outcome [of "player c"] s by simp
  show ?thesis
  proof (cases r)
    case None
    then show ?thesis using s by (simp add: shows_next_def)
  next
    case (Some nf)
    have "last_shown_pts p' = effective_timestamp (last_shown_pts (player c)) nf"
      using outcome_delivered(1) [OF o, of nf] Some by simp
    then show ?thesis
      using s Some v by (simp add: shows_next_def split_beta avframe_to_cvmat_keeps)
  qed
qed

lemma shows_next_if:
  "(P \<Longrightarrow> shows_next c a) \<Longrightarrow> (\<not> P \<Longrightarrow> shows_next c b) \<Longrightarrow> shows_next c (if P then a else b)"
  by simp

lemma loop_body_shows: "shows_next c (loop_body c key)"
  unfolding loop_body_def Let_def
  by (intro shows_next_if step_seek_shows [unfolded Let_def] step_next_shows [unfolded Let_def])
     (simp_all only: shows_next_flags)

lemma afr_effective:
  "(let afr = (if num (avg_frame_rate st) \<noteq> 0 then avg_frame_rate st else r_frame_rate st);
        afr = (if num afr = 0 \<or> den afr = 0 then \<lparr>num = 25, den = 1\<rparr> else afr)
    in g afr) = g (effective_rate st)"
  by (simp add: effective_rate_def Let_def)

lemma find_video_stream_first:
  "find_video_stream ss k = Some (i, st) \<Longrightarrow>
     k \<le> i \<and> i - k < length ss \<and> ss ! (i - k) = st \<and> codec_type st = AVMEDIA_TYPE_VIDEO
     \<and> (\<forall>j < i - k. codec_type (ss ! j) \<noteq> AVMEDIA_TYPE_VIDEO)"
proof (induction ss arbitrary: k)
  case Nil
  then show ?case by simp
next
  case (Cons s ss)
  show ?case
  proof (cases "codec_type s = AVMEDIA_TYPE_VIDEO")
    case True
    with Cons.prems show ?thesis by simp
  next
    case False
    with Cons.prems have f: "find_video_stream ss (Suc k) = Some (i, st)" by simp
    note ih = Cons.IH [OF f]
    from ih have k: "Suc k \<le> i" by simp
    then have e: "i - k = Suc (i - Suc k)" by simp
    have "\<forall>j < i - k. codec_type ((s # ss) ! j) \<noteq> AVMEDIA_TYPE_VIDEO"
    proof (intro allI impI)
      fix j assume j: "j < i - k"
      show "codec_type ((s # ss) ! j) \<noteq> AVMEDIA_TYPE_VIDEO"
      proof (cases j)
        case 0
        then show ?thesis using False by simp
      next
        case (Suc j')
        then have "j' < i - Suc k" using j e by simp
        then show ?thesis using ih Suc by simp
      qed
    qed
    then show ?thesis using ih k e by simp
  qed
qed

lemma open_player_Inr:
  assumes "open_player inp = Inr c"
  shows "\<exists>fc i st frame p.
      avformat_open_input inp = Some fc
    \<and> find_video_stream (streams fc) 0 = Some (i, st)
    \<and> seek_and_decode_frame
         (FFPlayer_init\<lparr>fmt_ctx := Some fc, video_stream_idx := of_nat i,
            video_stream := Some st, dec_ctx := Some \<lparr>buffered = []\<rparr>,
            player_avg_frame_rate := effective_rate st\<rparr>) 0 = (Some frame, p)
    \<and> c = \<lparr>player = snd (avframe_to_cvmat frame p),
           current_frame = pts_to_frame_number (last_shown_pts p) st,
           playing = False, should_quit = False,
           window = Some (fst (avframe_to_cvmat frame p)),
           shown_after = AV_NOPTS_VALUE\<rparr>"
proof -
  obtain fc where fc: "avformat_open_input inp = Some fc"
    using assms by (cases "avformat_open_input inp") (simp_all add: open_player_def)
  obtain i st where fv: "find_video_stream (streams fc) 0 = Some (i, st)"
    using assms fc
    by (cases "find_video_stream (streams fc) 0")
       (auto simp: open_player_def Let_def split: if_splits)
  let ?p = "FFPlayer_init\<lparr>fmt_ctx := Some fc, video_stream_idx := of_nat i,
            video_stream := Some st, dec_ctx := Some \<lparr>buffered = []\<rparr>,
            player_avg_frame_rate := effective_rate st\<rparr>"
  let ?q = "?p\<lparr>last_shown_pts := AV_NOPTS_VALUE\<rparr>"
  have same: "?q = ?p" by (simp add: FFPlayer_init_def)
  obtain r p where s: "seek_and_decode_frame ?q 0 = (r, p)"
    by (cases "seek_and_decode_frame ?q 0")
  have sr: "video_stream p = Some st"
    using seek_and_decode_frame_keeps(1) [of ?q 0] s by simp
  have eq: "open_player inp =
     (case r of None \<Rightarrow> Inl CouldNotDecodeFirstFrame
      | Some frame \<Rightarrow> Inr \<lparr>player = snd (avframe_to_cvmat frame p),
           current_frame = pts_to_frame_number (last_shown_pts (snd (avframe_to_cvmat frame p)))
              (the (video_stream (snd (avframe_to_cvmat frame p)))),
           playing = False, should_quit = False,
           window = Some (fst (avframe_to_cvmat frame p)),
           shown_after = AV_NOPTS_VALUE\<rparr>)"
    using assms fc fv s
    unfolding open_player_def afr_effective
    by (simp add: Let_def split_beta split: if_splits option.splits)
  then obtain frame where r: "r = Some frame" using assms by (cases r) simp_all
  have "c = \<lparr>player = snd (avframe_to_cvmat frame p),
           current_frame = pts_to_frame_number (last_shown_pts p) st,
           playing = False, should_quit = False,
           window = Some (fst (avframe_to_cvmat frame p)),
           shown_after = AV_NOPTS_VALUE\<rparr>"
    using eq r assms sr by (simp add: avframe_to_cvmat_keeps)
  moreover have "seek_and_decode_frame ?p 0 = (Some frame, p)"
    using s r by (simp only: same)
  ultimately show ?thesis using fc fv by blast
qed

lemma open_player_tracks:
  assumes "open_player inp = Inr c"
  shows "\<exists>st. tracks c st"
proof -
  obtain fc i st frame p where
    s: "seek_and_decode_frame
         (FFPlayer_init\<lparr>fmt_ctx := Some fc, video_stream_idx := of_nat i,
            video_stream := Some st, dec_ctx := Some \<lparr>buffered = []\<rparr>,
            player_avg_frame_rate := effective_rate st\<rparr>) 0 = (Some frame, p)"
    and c: "c = \<lparr>player = snd (avframe_to_cvmat frame p),
           current_frame = pts_to_frame_number (last_shown_pts p) st,
           playing = False, should_quit = False,
           window = Some (fst (avframe_to_cvmat frame p)),
           shown_after = AV_NOPTS_VALUE\<rparr>"
    using open_player_Inr [OF assms] by blast
  let ?p0 = "FFPlayer_init\<lparr>fmt_ctx := Some fc, video_stream_idx := of_nat i,
            video_stream := Some st, dec_ctx := Some \<lparr>buffered = []\<rparr>,
            player_avg_frame_rate := effective_rate st\<rparr>"
  have v: "video_stream p = Some st"
    using seek_and_decode_frame_keeps(1) [of ?p0 0] s by simp
  have "last_shown_pts p = effective_timestamp (last_shown_pts ?p0) frame"
    using outcome_delivered(1) [OF seek_and_decode_frame_outcome [of ?p0 0], of frame] s by simp
  then have l: "last_shown_pts p = effective_timestamp AV_NOPTS_VALUE frame"
    by (simp add: FFPlayer_init_def)
  have "tracks c st" using v l by (simp add: c tracks_def avframe_to_cvmat_keeps)
  then show ?thesis ..
qed

lemma open_player_rate:
  assumes "open_player inp = Inr c"
  shows "\<exists>st. video_stream (player c) = Some st
    \<and> player_avg_frame_rate (player c) = effective_rate st"
proof -
  obtain fc i st frame p where
    s: "seek_and_decode_frame
         (FFPlayer_init\<lparr>fmt_ctx := Some fc, video_stream_idx := of_nat i,
            video_stream := Some st, dec_ctx := Some \<lparr>buffered = []\<rparr>,
            player_avg_frame_rate := effective_rate st\<rparr>) 0 = (Some frame, p)"
    and c: "c = \<lparr>player = snd (avframe_to_cvmat frame p),
           current_frame = pts_to_frame_number (last_shown_pts p) st,
           playing = False, should_quit = False,
           window = Some (fst (avframe_to_cvmat frame p)),
           shown_after = AV_NOPTS_VALUE\<rparr>"
    using open_player_Inr [OF assms] by blast
  let ?p0 = "FFPlayer_init\<lparr>fmt_ctx := Some fc, video_stream_idx := of_nat i,
            video_stream := Some st, dec_ctx := Some \<lparr>buffered = []\<rparr>,
            player_avg_frame_rate := effective_rate st\<rparr>"
  have "video_stream p = Some st" "player_avg_frame_rate p = effective_rate st"
    using seek_and_decode_frame_keeps(1,4) [of ?p0 0] s by simp_all
  then show ?thesis by (simp add: c avframe_to_cvmat_keeps)
qed

section \<open>ColorConverter: when the context is rebuilt\<close>

lemma avframe_to_cvmat_builds:
  "sws_builds (snd (avframe_to_cvmat f p)) =
     (if sws_ctx p = None \<or> (sws_src_w p, sws_src_h p, sws_src_fmt p) \<noteq> frame_triple f
      then sws_builds p + 1 else sws_builds p)"
  by (auto simp: avframe_to_cvmat_def frame_triple_def Let_def)

lemma avframe_to_cvmat_cached:
  "sws_ctx p = None \<or> cached_for p t \<Longrightarrow> cached_for (snd (avframe_to_cvmat f p)) (frame_triple f)"
  by (auto simp: avframe_to_cvmat_def cached_for_def frame_triple_def context_triple_def
      sws_getContext_def Let_def)

lemma avframe_to_cvmat_used:
  "sws_ctx p = None \<or> cached_for p t \<Longrightarrow>
     map_option context_triple (scaled_by (fst (avframe_to_cvmat f p))) = Some (frame_triple f)
     \<and> scaled_from (fst (avframe_to_cvmat f p)) = f"
  by (auto simp: avframe_to_cvmat_def cached_for_def frame_triple_def context_triple_def
      sws_getContext_def Let_def)

lemma convert_all_Cons:
  "convert_all p (f # fs) =
     (fst (avframe_to_cvmat f p) # fst (convert_all (snd (avframe_to_cvmat f p)) fs),
      snd (convert_all (snd (avframe_to_cvmat f p)) fs))"
  by (simp add: split_beta)

lemma convert_all_builds_cached:
  "cached_for p t \<Longrightarrow>
     Suc (sws_builds (snd (convert_all p fs)))
       = sws_builds p + length (remdups_adj (t # map frame_triple fs))"
proof (induction fs arbitrary: p t)
  case Nil
  show ?case by simp
next
  case (Cons f fs)
  let ?p = "snd (avframe_to_cvmat f p)"
  have c: "cached_for ?p (frame_triple f)"
    using avframe_to_cvmat_cached [of p t f] Cons.prems by simp
  have b: "sws_builds ?p = (if t \<noteq> frame_triple f then sws_builds p + 1 else sws_builds p)"
    using Cons.prems by (auto simp: avframe_to_cvmat_builds cached_for_def)
  show ?case
    using Cons.IH [OF c] b by (simp add: convert_all_Cons del: convert_all.simps)
qed

lemma convert_all_builds:
  assumes "sws_ctx p = None"
  shows "sws_builds (snd (convert_all p fs)) = sws_builds p + length (remdups_adj (map frame_triple fs))"
proof (cases fs)
  case Nil
  then show ?thesis by simp
next
  case (Cons f fs')
  let ?p = "snd (avframe_to_cvmat f p)"
  have c: "cached_for ?p (frame_triple f)"
    using avframe_to_cvmat_cached [of p undefined f] assms by simp
  have b: "sws_builds ?p = sws_builds p + 1"
    using assms by (simp add: avframe_to_cvmat_builds)
  show ?thesis
    using convert_all_builds_cached [OF c, of fs'] b Cons
    by (simp add: convert_all_Cons del: convert_all.simps)
qed

lemma convert_all_used:
  "sws_ctx p = None \<or> cached_for p t \<Longrightarrow> m \<in> set (fst (convert_all p fs)) \<Longrightarrow>
     map_option context_triple (scaled_by m) = Some (frame_triple (scaled_from m))"
proof (induction fs arbitrary: p t)
  case Nil
  then show ?case by simp
next
  case (Cons f fs)
  let ?p = "snd (avframe_to_cvmat f p)"
  have c: "cached_for ?p (frame_triple f)"
    using avframe_to_cvmat_cached [of p t f] Cons.prems(1) by simp
  from Cons.prems(2) consider "m = fst (avframe_to_cvmat f p)" | "m \<in> set (fst (convert_all ?p fs))"
    by (auto simp: convert_all_Cons simp del: convert_all.simps)
  then show ?case
  proof cases
    case 1
    then show ?thesis using avframe_to_cvmat_used [of p t f] Cons.prems(1) by simp
  next
    case 2
    then show ?thesis using Cons.IH [of ?p "frame_triple f"] c by simp
  qed
qed

section \<open>The sentinel and its successor\<close>

lemma sentinel_successor_negative:
  assumes "0 \<le>s (t :: int64)"
  shows "AV_NOPTS_VALUE + 1 <s t"
proof -
  have "sint (AV_NOPTS_VALUE + 1 :: int64) = - (2 ^ 63) + 1"
    by (simp add: AV_NOPTS_VALUE_def)
  moreover have "0 \<le> sint t" using assms by (simp add: word_sle_eq)
  ultimately show ?thesis by (simp add: word_sless_alt)
qed

section \<open>The claims\<close>

text \<open>
  C1. The controller never counts frames. When \<^verbatim>\<open>main\<close> has opened the input, and
  after every sequence of turns of the command loop (steps forward and backward through
  \<^verbatim>\<open>seek_and_decode_frame\<close>, playback through \<^verbatim>\<open>decode_next_frame\<close>, in any
  interleaving), \<open>current_frame\<close> is \<open>pts_to_frame_number\<close> of the effective
  timestamp of the frame in the window, the frame delivered last; that timestamp is
  \<open>last_shown_pts\<close> as long as no \<^verbatim>\<open>av_frame_clone\<close> has failed. In every further
  turn either the window and \<open>current_frame\<close> stay as they are, or a frame is shown,
  \<open>last_shown_pts\<close> is its effective timestamp and \<open>current_frame\<close> is recomputed as
  \<open>pts_to_frame_number\<close> of \<open>last_shown_pts\<close>.
\<close>

theorem current_frame_follows_shown_frame:
  assumes "open_player inp = Inr c0"
  shows "\<exists>st m.
      video_stream (player (command_loop c0 keys)) = Some st
    \<and> window (command_loop c0 keys) = Some m
    \<and> current_frame (command_loop c0 keys)
        = pts_to_frame_number
            (effective_timestamp (shown_after (command_loop c0 keys)) (scaled_from m)) st
    \<and> (clone_failures (player (command_loop c0 keys)) = 0 \<longrightarrow>
         last_shown_pts (player (command_loop c0 keys))
           = effective_timestamp (shown_after (command_loop c0 keys)) (scaled_from m)
         \<and> current_frame (command_loop c0 keys)
           = pts_to_frame_number (last_shown_pts (player (command_loop c0 keys))) st)
    \<and> ((window (loop_body (command_loop c0 keys) key) = Some m
          \<and> current_frame (loop_body (command_loop c0 keys) key)
              = current_frame (command_loop c0 keys)
          \<and> shown_after (loop_body (command_loop c0 keys) key)
              = shown_after (command_loop c0 keys))
        \<or> (\<exists>m'. window (loop_body (command_loop c0 keys) key) = Some m'
              \<and> shown_after (loop_body (command_loop c0 keys) key)
                  = last_shown_pts (player (command_loop c0 keys))
              \<and> last_shown_pts (player (loop_body (command_loop c0 keys) key))
                  = effective_timestamp (last_shown_pts (player (command_loop c0 keys)))
                      (scaled_from m')
              \<and> current_frame (loop_body (command_loop c0 keys) key)
                  = pts_to_frame_number
                      (last_shown_pts (player (loop_body (command_loop c0 keys) key))) st))"
proof -
  let ?c = "command_loop c0 keys"
  obtain st where "tracks c0 st" using open_player_tracks [OF assms] by blast
  then have t: "tracks ?c st" by (rule command_loop_tracks)
  then obtain m where v: "video_stream (player ?c) = Some st" and w: "window ?c = Some m"
    and cf: "current_frame ?c
        = pts_to_frame_number (effective_timestamp (shown_after ?c) (scaled_from m)) st"
    and l: "clone_failures (player ?c) = 0 \<Longrightarrow>
        last_shown_pts (player ?c) = effective_timestamp (shown_after ?c) (scaled_from m)"
    by (auto simp: tracks_def split: option.splits)
  have s: "shows_next ?c (loop_body ?c key)" by (rule loop_body_shows)
  show ?thesis
    using v w cf l s unfolding shows_next_def by auto
qed

text \<open>
  Three frames, and the keys \<^verbatim>\<open>n\<close>, space, no key (one frame played) and \<^verbatim>\<open>b\<close>:
  the window shows the frame at 3600 ticks, which is frame 1.
\<close>

theorem current_frame_follows_shown_frame_witness:
  "\<exists>c0. open_player (input_of (container_of [frame_at 0, frame_at 3600, frame_at 7200])) = Inr c0
     \<and> map_option scaled_from (window (command_loop c0 [110, 32, - 1, 98]))
          = Some (frame_at 3600)
     \<and> current_frame (command_loop c0 [110, 32, - 1, 98]) = 1
     \<and> clone_failures (player (command_loop c0 [110, 32, - 1, 98])) = 0
     \<and> last_shown_pts (player (command_loop c0 [110, 32, - 1, 98])) = 3600"
proof -
  let ?inp = "input_of (container_of [frame_at 0, frame_at 3600, frame_at 7200])"
  let ?keys = "[110, 32, - 1, 98] :: int32 list"
  have "\<exists>c0. open_player ?inp = Inr c0
      \<and> map_option scaled_from (window (command_loop c0 ?keys)) = Some (frame_at 3600)
      \<and> clone_failures (player (command_loop c0 ?keys)) = 0
      \<and> shown_after (command_loop c0 ?keys) = 7200
      \<and> video_stream (player (command_loop c0 ?keys)) = Some scenario_stream"
    by (simp add: open_player_def loop_body_def input_defs run_defs)
  then obtain c0 where o: "open_player ?inp = Inr c0"
    and w: "map_option scaled_from (window (command_loop c0 ?keys)) = Some (frame_at 3600)"
    and n: "clone_failures (player (command_loop c0 ?keys)) = 0"
    and a: "shown_after (command_loop c0 ?keys) = 7200"
    and v: "video_stream (player (command_loop c0 ?keys)) = Some scenario_stream"
    by blast
  define c where "c = command_loop c0 ?keys"
  note th = current_frame_follows_shown_frame [OF o, of ?keys 0, folded c_def]
  note w' = w [folded c_def] and n' = n [folded c_def] and a' = a [folded c_def]
    and v' = v [folded c_def]
  from th obtain st m where A: "video_stream (player c) = Some st"
    and B: "window c = Some m"
    and C: "current_frame c
        = pts_to_frame_number (effective_timestamp (shown_after c) (scaled_from m)) st"
    and D: "clone_failures (player c) = 0 \<longrightarrow>
         last_shown_pts (player c) = effective_timestamp (shown_after c) (scaled_from m)
         \<and> current_frame c = pts_to_frame_number (last_shown_pts (player c)) st"
    by (elim exE conjE) (rule that; assumption)
  have st: "st = scenario_stream" using A v' by simp
  have m: "scaled_from m = frame_at 3600" using B w' by simp
  have e: "effective_timestamp 7200 (frame_at 3600) = 3600"
    by (simp add: effective_timestamp_def frame_at_def AV_NOPTS_VALUE_def)
  have f: "pts_to_frame_number 3600 scenario_stream = 1"
    by (simp add: input_defs run_defs)
  have "current_frame c = 1" using C by (simp only: st m a' e f)
  moreover have "last_shown_pts (player c) = 3600" using D n' by (simp only: m a' e simp_thms)
  ultimately show ?thesis using o w' n' unfolding c_def by blast
qed

text \<open>
  C2. With the container, the decoder and the stream in place,
  \<^verbatim>\<open>seek_and_decode_frame\<close> returns no frame and leaves the player as it was when the
  backward seek fails. Otherwise it stops at the first of the frames the decoder yields
  from the landing position whose effective timestamp is at least the target timestamp:
  it returns that frame when \<^verbatim>\<open>av_frame_clone\<close> succeeds on it (the clone, in every
  case) and sets \<open>last_shown_pts\<close> to that effective timestamp. When no yielded frame
  reaches the target it returns no frame and \<open>last_shown_pts\<close> keeps its value.
\<close>

theorem seek_and_decode_frame_first_reaching_target:
  assumes "fmt_ctx p = Some fc" and "dec_ctx p = Some dc" and "video_stream p = Some st"
  shows "(case seek_backward fc (frame_number_to_stream_ts n st) of
            None \<Rightarrow> seek_and_decode_frame p n = (None, p)
          | Some ps \<Rightarrow>
              (case List.find (\<lambda>f. frame_number_to_stream_ts n st
                                     \<le>s effective_timestamp (last_shown_pts p) f)
                      (yielded_frames (video_stream_idx p) ps []) of
                 None \<Rightarrow>
                   fst (seek_and_decode_frame p n) = None
                   \<and> last_shown_pts (snd (seek_and_decode_frame p n)) = last_shown_pts p
               | Some f \<Rightarrow>
                   fst (seek_and_decode_frame p n) = av_frame_clone f
                   \<and> (clonable f \<longrightarrow> fst (seek_and_decode_frame p n) = Some f)
                   \<and> last_shown_pts (snd (seek_and_decode_frame p n))
                       = effective_timestamp (last_shown_pts p) f))"
proof (cases "seek_backward fc (frame_number_to_stream_ts n st)")
  case None
  then show ?thesis
    using seek_and_decode_frame_seek_failed [OF assms] by simp
next
  case (Some ps)
  show ?thesis
    using seek_and_decode_frame_found [OF assms Some] Some
    by (simp add: av_frame_clone_def split: option.splits)
qed

text \<open>
  Frame 1 of the scenario is the frame at 3600 ticks; on a source that cannot seek the
  call returns no frame and changes nothing.
\<close>

theorem seek_and_decode_frame_first_reaching_target_witness:
  "fst (seek_and_decode_frame
          (player_on (container_of [frame_at 0, frame_at 3600, frame_at 7200])) 1)
     = Some (frame_at 3600)
   \<and> last_shown_pts (snd (seek_and_decode_frame
          (player_on (container_of [frame_at 0, frame_at 3600, frame_at 7200])) 1)) = 3600
   \<and> seek_and_decode_frame
          (player_on (unseekable_container_of [frame_at 0, frame_at 3600])) 1
     = (None, player_on (unseekable_container_of [frame_at 0, frame_at 3600]))"
proof -
  let ?fc = "container_of [frame_at 0, frame_at 3600, frame_at 7200]"
  let ?uc = "unseekable_container_of [frame_at 0, frame_at 3600]"
  have ts: "frame_number_to_stream_ts 1 scenario_stream = 3600"
    by (simp add: input_defs run_defs)
  have y: "yielded_frames 0 (map video_packet [frame_at 0, frame_at 3600, frame_at 7200]) []
             = [frame_at 0, frame_at 3600, frame_at 7200]"
    by (simp add: video_packet_def)
  have a: "fmt_ctx (player_on ?fc) = Some ?fc" "dec_ctx (player_on ?fc) = Some \<lparr>buffered = []\<rparr>"
    "video_stream (player_on ?fc) = Some scenario_stream"
    "video_stream_idx (player_on ?fc) = 0" "last_shown_pts (player_on ?fc) = AV_NOPTS_VALUE"
    by (simp_all add: player_on_def FFPlayer_init_def)
  have b: "fmt_ctx (player_on ?uc) = Some ?uc" "dec_ctx (player_on ?uc) = Some \<lparr>buffered = []\<rparr>"
    "video_stream (player_on ?uc) = Some scenario_stream"
    by (simp_all add: player_on_def FFPlayer_init_def)
  have s: "seek_backward ?fc 3600 = Some (map video_packet [frame_at 0, frame_at 3600, frame_at 7200])"
    "seek_backward ?uc 3600 = None"
    by (simp_all add: container_of_def unseekable_container_of_def)
  have ev: "List.find (\<lambda>f. 3600 \<le>s effective_timestamp AV_NOPTS_VALUE f)
              [frame_at 0, frame_at 3600, frame_at 7200] = Some (frame_at 3600)"
    by (simp add: effective_timestamp_def frame_at_def AV_NOPTS_VALUE_def word_sle_eq)
  have ev2: "effective_timestamp AV_NOPTS_VALUE (frame_at 3600) = 3600"
    "clonable (frame_at 3600)"
    by (simp_all add: effective_timestamp_def frame_at_def AV_NOPTS_VALUE_def)
  note 1 = seek_and_decode_frame_first_reaching_target
    [OF a(1-3), of 1, unfolded ts s y a(4,5) ev option.case]
  note 2 = seek_and_decode_frame_first_reaching_target
    [OF b, of 1, unfolded ts s option.case]
  show ?thesis using 1 2 ev2 by (simp add: av_frame_clone_def)
qed

text \<open>
  C3, amended. The round trip holds when the time base is fine enough: for a frame number
  \<open>n \<ge> 0\<close>, a positive effective rate and a positive time base such that one tick
  lasts at most one frame, and a timestamp of frame \<open>n\<close> that is representable,
  \<open>pts_to_frame_number (frame_number_to_stream_ts n st) st = n\<close>. The arithmetic is
  integer arithmetic throughout.
\<close>

theorem round_trip_fine_time_base:
  assumes n: "0 \<le>s n"
    and rate: "0 < sint (num (effective_rate st))" "0 < sint (den (effective_rate st))"
    and tb: "0 < sint (num (time_base st))" "0 < sint (den (time_base st))"
    and fine: "sint (num (time_base st)) * sint (num (effective_rate st))
                 \<le> sint (den (effective_rate st)) * sint (den (time_base st))"
    and repr: "frame_number_to_stream_ts n st \<noteq> INT64_MIN"
  shows "pts_to_frame_number (frame_number_to_stream_ts n st) st = n"
proof -
  let ?R = "effective_rate st"
  let ?T = "time_base st"
  let ?b = "sint (den ?R) * sint (den ?T)"
  let ?c = "sint (num ?T) * sint (num ?R)"
  let ?ts = "(sint n * ?b + ?c div 2) div ?c"
  have n0: "0 \<le> sint n" using n by (simp add: word_sle_eq)
  have c0: "0 < ?c" using rate tb by simp
  have b0: "0 < ?b" using rate tb by simp
  have fwd_le: "?ts \<le> 2 ^ 63 - 1"
    using av_rescale_q_overflow [of n "?T" "av_inv_q ?R"] n0 c0 b0 repr
    by (simp add: fts_effective av_inv_q_def)
  have fwd: "sint (frame_number_to_stream_ts n st) = ?ts"
    using av_rescale_q_nonneg [of n "?T" "av_inv_q ?R"] n0 c0 b0 fwd_le
    by (simp add: fts_effective av_inv_q_def)
  have ts0: "0 \<le> ?ts"
    using n0 c0 b0 by (simp add: pos_imp_zdiv_nonneg_iff)
  have back_val: "(?ts * ?c + ?b div 2) div ?b = sint n"
    using round_trip_int [of "sint n" ?c ?b] n0 c0 fine by simp
  have nmax: "sint n \<le> 2 ^ 63 - 1" using sint_lt [of n] by simp
  have "sint (pts_to_frame_number (frame_number_to_stream_ts n st) st) =
        (sint (frame_number_to_stream_ts n st) * ?c + ?b div 2) div ?b"
    using av_rescale_q_nonneg [of "frame_number_to_stream_ts n st" "av_inv_q ?R" "?T"]
      ts0 c0 b0 back_val nmax
    by (simp add: ptf_effective av_inv_q_def fwd mult.commute)
  then have "sint (pts_to_frame_number (frame_number_to_stream_ts n st) st) = sint n"
    using back_val by (simp add: fwd)
  then show ?thesis by (rule signed_word_eqI)
qed

text \<open>The specification's scenario: frame 5 is at 18000 ticks and comes back as 5.\<close>

theorem round_trip_fine_time_base_witness:
  "frame_number_to_stream_ts 5 scenario_stream = 18000
   \<and> pts_to_frame_number (frame_number_to_stream_ts 5 scenario_stream) scenario_stream = 5"
proof -
  have ts: "frame_number_to_stream_ts 5 scenario_stream = 18000"
    by (simp add: input_defs run_defs)
  have repr: "frame_number_to_stream_ts 5 scenario_stream \<noteq> INT64_MIN"
    by (simp add: ts INT64_MIN_def)
  have "pts_to_frame_number (frame_number_to_stream_ts 5 scenario_stream) scenario_stream = 5"
    by (rule round_trip_fine_time_base [OF _ _ _ _ _ _ repr])
       (simp_all add: effective_rate_def scenario_stream_def word_sle_eq)
  with ts show ?thesis by simp
qed

text \<open>
  The claim as stated fails on a time base coarser than the frame duration: at 25 frames
  per second on a time base of 1/10, frame 1 rounds to timestamp 0, which is frame 0.
\<close>

theorem round_trip_counterexample:
  "frame_number_to_stream_ts 1 coarse_stream = 0
   \<and> pts_to_frame_number (frame_number_to_stream_ts 1 coarse_stream) coarse_stream = 0
   \<and> pts_to_frame_number (frame_number_to_stream_ts 1 coarse_stream) coarse_stream \<noteq> 1"
  by (simp add: input_defs run_defs)

text \<open>
  C4, amended. Both conversions rescale with the same effective rate, for every stream,
  and \<^verbatim>\<open>main\<close> stores that rate in the player when it opens the input. The rate is
  25/1 when the declared average rate has a nonzero numerator and a zero denominator, or
  a zero numerator while the real base rate has a zero numerator or a zero denominator.
\<close>

theorem conversions_share_effective_rate:
  "frame_number_to_stream_ts n st
     = av_rescale_q n (av_inv_q (effective_rate st)) (time_base st)
   \<and> pts_to_frame_number t st
     = av_rescale_q t (time_base st) (av_inv_q (effective_rate st))
   \<and> (open_player inp = Inr c \<longrightarrow>
        (\<exists>vs. video_stream (player c) = Some vs
            \<and> player_avg_frame_rate (player c) = effective_rate vs))
   \<and> ((num (avg_frame_rate st) \<noteq> 0 \<and> den (avg_frame_rate st) = 0)
       \<or> (num (avg_frame_rate st) = 0
           \<and> (num (r_frame_rate st) = 0 \<or> den (r_frame_rate st) = 0))
      \<longrightarrow> effective_rate st = \<lparr>num = 25, den = 1\<rparr>)"
  using fts_effective [of n st] ptf_effective [of t st] open_player_rate [of inp c]
  by (simp add: effective_rate_def)

text \<open>
  A stream without any valid rate: both conversions use 25/1, and so does the player
  opened on a container that holds the stream.
\<close>

theorem conversions_share_effective_rate_witness:
  "effective_rate no_rate_stream = \<lparr>num = 25, den = 1\<rparr>
   \<and> frame_number_to_stream_ts 1 no_rate_stream
     = av_rescale_q 1 (av_inv_q \<lparr>num = 25, den = 1\<rparr>) (time_base no_rate_stream)
   \<and> pts_to_frame_number 3600 no_rate_stream
     = av_rescale_q 3600 (time_base no_rate_stream) (av_inv_q \<lparr>num = 25, den = 1\<rparr>)
   \<and> map_sum id (\<lambda>c. player_avg_frame_rate (player c))
        (open_player (input_of ((container_of [frame_at 0])\<lparr>streams := [no_rate_stream]\<rparr>)))
     = Inr \<lparr>num = 25, den = 1\<rparr>"
proof -
  let ?inp = "input_of ((container_of [frame_at 0])\<lparr>streams := [no_rate_stream]\<rparr>)"
  have b: "num (avg_frame_rate no_rate_stream) = 0
      \<and> (num (r_frame_rate no_rate_stream) = 0 \<or> den (r_frame_rate no_rate_stream) = 0)"
    by (simp add: input_defs)
  have "\<exists>c. open_player ?inp = Inr c \<and> video_stream (player c) = Some no_rate_stream"
    by (simp add: open_player_def input_defs run_defs)
  then obtain c where o: "open_player ?inp = Inr c"
    and v: "video_stream (player c) = Some no_rate_stream"
    by blast
  note w = conversions_share_effective_rate [of 1 no_rate_stream 3600 ?inp c]
  have e: "effective_rate no_rate_stream = \<lparr>num = 25, den = 1\<rparr>"
    using w b by blast
  have "player_avg_frame_rate (player c) = effective_rate no_rate_stream"
    using w o v by auto
  then have "map_sum id (\<lambda>c. player_avg_frame_rate (player c)) (open_player ?inp)
      = Inr \<lparr>num = 25, den = 1\<rparr>"
    using o e by simp
  then show ?thesis using w e by simp
qed

text \<open>
  The claim as stated fails on a stream that declares no average rate and a real base
  rate of 30/1: frame 1 is at 3000 ticks, where 25 frames per second give 3600.
\<close>

theorem fallback_rate_counterexample:
  "num (avg_frame_rate base_rate_stream) = 0
   \<and> frame_number_to_stream_ts 1 base_rate_stream = 3000
   \<and> av_rescale_q 1 (av_inv_q \<lparr>num = 25, den = 1\<rparr>) (time_base base_rate_stream) = 3600
   \<and> frame_number_to_stream_ts 1 base_rate_stream
        \<noteq> av_rescale_q 1 (av_inv_q \<lparr>num = 25, den = 1\<rparr>) (time_base base_rate_stream)"
  by (simp add: input_defs frame_number_to_stream_ts_def av_rescale_q_def av_inv_q_def
      av_rescale_rnd_near_inf_def rescale_nonneg_def Let_def)

text \<open>
  C5, amended. Every frame the decoder yields to \<^verbatim>\<open>seek_and_decode_frame\<close> or to
  \<^verbatim>\<open>decode_next_frame\<close> gets the effective timestamp: the best-effort timestamp when
  there is one, else the frame's own, else \<open>last_shown_pts + 1\<close>; a delivered frame
  leaves it in \<open>last_shown_pts\<close>. The synthesized value depends on
  \<open>last_shown_pts\<close> alone and is strictly greater than it, unless that is
  \<^verbatim>\<open>INT64_MAX\<close>.
\<close>

theorem effective_timestamp_of_yielded_frames:
  "seek_drain lp tgt (Frame f # q)
     = (if tgt \<le>s effective_timestamp lp f
        then (Some (av_frame_clone f, effective_timestamp lp f), q)
        else seek_drain lp tgt q)
   \<and> next_drain lp (Frame f # q) = (Some (av_frame_clone f, effective_timestamp lp f), q)
   \<and> (fst (seek_and_decode_frame p n) = Some g \<longrightarrow>
        last_shown_pts (snd (seek_and_decode_frame p n))
          = effective_timestamp (last_shown_pts p) g)
   \<and> (fst (decode_next_frame p) = Some g \<longrightarrow>
        last_shown_pts (snd (decode_next_frame p))
          = effective_timestamp (last_shown_pts p) g)
   \<and> (best_effort_timestamp f = AV_NOPTS_VALUE \<and> pts f = AV_NOPTS_VALUE \<longrightarrow>
        effective_timestamp lp f = lp + 1
        \<and> (lp \<noteq> INT64_MAX \<longrightarrow> lp <s effective_timestamp lp f))"
proof -
  have "lp <s lp + 1" if "lp \<noteq> INT64_MAX"
  proof -
    have "sint lp \<noteq> 2 ^ 63 - 1"
    proof
      assume "sint lp = 2 ^ 63 - 1"
      then have "sint lp = sint INT64_MAX" by (simp add: INT64_MAX_def)
      then have "lp = INT64_MAX" by (rule signed_word_eqI)
      with that show False by simp
    qed
    then have "sint lp + 1 \<le> 2 ^ 63 - 1" using sint_lt [of lp] by simp
    moreover have "- (2 ^ 63) \<le> sint lp + 1" using sint_ge [of lp] by simp
    ultimately have "sint (lp + 1) = sint lp + 1"
      by (simp add: sint_word_ariths signed_take_bit_int_eq_self)
    then show ?thesis by (simp add: word_sless_alt)
  qed
  then show ?thesis
    using seek_drain_Frame [of lp tgt f q] next_drain_Frame [of lp f q]
      outcome_delivered(1) [OF seek_and_decode_frame_outcome [of p n], of g]
      outcome_delivered(1) [OF decode_next_frame_outcome [of p], of g]
    by (simp add: effective_timestamp_def del: seek_drain.simps next_drain.simps)
qed

text \<open>After timestamp 1000 a frame without timestamp is given 1001.\<close>

theorem effective_timestamp_of_yielded_frames_witness:
  "effective_timestamp 1000 untimed_frame = 1001 \<and> (1000 :: int64) <s 1001"
proof -
  have "best_effort_timestamp untimed_frame = AV_NOPTS_VALUE \<and> pts untimed_frame = AV_NOPTS_VALUE"
    by (simp add: untimed_frame_def frame_at_def)
  moreover have "(1000 :: int64) \<noteq> INT64_MAX" by (simp add: INT64_MAX_def)
  ultimately have "effective_timestamp 1000 untimed_frame = 1000 + 1
      \<and> 1000 <s effective_timestamp 1000 untimed_frame"
    using effective_timestamp_of_yielded_frames
      [of 1000 0 untimed_frame "[]" FFPlayer_init 0 untimed_frame]
    by blast
  then show ?thesis by simp
qed

text \<open>
  The claim as stated fails inside one forward scan. The frames are at 0, at 1800,
  without timestamp, and at 3600. The first call of \<^verbatim>\<open>main\<close> delivers the frame at 0;
  the step to frame 1 then scans all four frames and delivers the one at 3600. In that
  scan the effective timestamps are 0, 1800, 1 and 3600: the frame without timestamp
  is given 1, after 1800 was given to the frame before it.
\<close>

theorem synthesized_timestamp_counterexample:
  "last_shown_pts (snd (seek_and_decode_frame
      (player_on (container_of [frame_at 0, frame_at 1800, untimed_frame, frame_at 3600])) 0))
     = 0
   \<and> frame_number_to_stream_ts 1 scenario_stream = 3600
   \<and> yielded_frames 0
        (map video_packet [frame_at 0, frame_at 1800, untimed_frame, frame_at 3600]) []
     = [frame_at 0, frame_at 1800, untimed_frame, frame_at 3600]
   \<and> map (effective_timestamp 0) [frame_at 0, frame_at 1800, untimed_frame, frame_at 3600]
     = [0, 1800, 1, 3600]
   \<and> seek_drain 0 3600 [Frame (frame_at 1800), Frame untimed_frame] = (None, [])
   \<and> fst (seek_and_decode_frame (snd (seek_and_decode_frame
      (player_on (container_of [frame_at 0, frame_at 1800, untimed_frame, frame_at 3600])) 0)) 1)
     = Some (frame_at 3600)
   \<and> \<not> ((1800 :: int64) <s 1)"
  by (simp add: input_defs run_defs effective_timestamp_def)

text \<open>
  C6. A call of \<^verbatim>\<open>avframe_to_cvmat\<close> builds a conversion context if and only if the
  player has none or the frame's (width, height, format) differs from the cached triple.
  Starting without a context, the number of builds over a sequence of frames is the
  number of distinct consecutive triples, and every image is scaled by a context built
  for the triple of its frame.
\<close>

theorem context_rebuilt_iff_triple_changes:
  "sws_builds (snd (avframe_to_cvmat f p)) =
     (if sws_ctx p = None \<or> (sws_src_w p, sws_src_h p, sws_src_fmt p) \<noteq> frame_triple f
      then sws_builds p + 1 else sws_builds p)
   \<and> (sws_ctx p = None \<longrightarrow>
        sws_builds (snd (convert_all p fs))
          = sws_builds p + length (remdups_adj (map frame_triple fs))
        \<and> (\<forall>m \<in> set (fst (convert_all p fs)).
              map_option context_triple (scaled_by m) = Some (frame_triple (scaled_from m))))"
  using avframe_to_cvmat_builds [of f p] convert_all_builds [of p fs]
    convert_all_used [of p undefined _ fs]
  by blast

text \<open>Four frames, the third of another width: three contexts are built.\<close>

theorem context_rebuilt_iff_triple_changes_witness:
  "sws_ctx FFPlayer_init = None
   \<and> sws_builds (snd (convert_all FFPlayer_init
        [frame_at 0, frame_at 1, (frame_at 2)\<lparr>width := 4\<rparr>, frame_at 3])) = 3
   \<and> list_all
        (\<lambda>m. map_option context_triple (scaled_by m) = Some (frame_triple (scaled_from m)))
        (fst (convert_all FFPlayer_init
           [frame_at 0, frame_at 1, (frame_at 2)\<lparr>width := 4\<rparr>, frame_at 3]))"
proof -
  have n: "sws_ctx FFPlayer_init = None" by (simp add: FFPlayer_init_def)
  have l: "length (remdups_adj (map frame_triple
        [frame_at 0, frame_at 1, (frame_at 2)\<lparr>width := 4\<rparr>, frame_at 3])) = 3"
    by (simp add: frame_triple_def frame_at_def)
  have b: "sws_builds FFPlayer_init = 0" by (simp add: FFPlayer_init_def)
  show ?thesis
    using n l b context_rebuilt_iff_triple_changes [of "frame_at 0" FFPlayer_init
        "[frame_at 0, frame_at 1, (frame_at 2)\<lparr>width := 4\<rparr>, frame_at 3]"]
    by (simp add: list_all_iff)
qed

text \<open>
  C7, amended. A successful opening has opened the container, selected the first stream
  of video type (stream \<open>i\<close>, no stream before it is of video type), obtained the first frame from \<^verbatim>\<open>seek_and_decode_frame\<close> with target frame
  0, converted it and put it in the window; the controller is paused, and
  \<open>current_frame\<close> is \<open>pts_to_frame_number\<close> of the timestamp of that frame: 0 when
  the timestamp is 0 and the rate and the time base are positive.
\<close>

theorem open_player_shows_first_frame:
  assumes "open_player inp = Inr c"
  shows "\<exists>fc i st frame p.
      avformat_open_input inp = Some fc
    \<and> find_video_stream (streams fc) 0 = Some (i, st)
    \<and> i < length (streams fc) \<and> streams fc ! i = st
    \<and> codec_type st = AVMEDIA_TYPE_VIDEO
    \<and> (\<forall>j < i. codec_type (streams fc ! j) \<noteq> AVMEDIA_TYPE_VIDEO)
    \<and> seek_and_decode_frame
         (FFPlayer_init\<lparr>fmt_ctx := Some fc, video_stream_idx := of_nat i,
            video_stream := Some st, dec_ctx := Some \<lparr>buffered = []\<rparr>,
            player_avg_frame_rate := effective_rate st\<rparr>) 0 = (Some frame, p)
    \<and> player c = snd (avframe_to_cvmat frame p)
    \<and> window c = Some (fst (avframe_to_cvmat frame p))
    \<and> \<not> playing c \<and> \<not> should_quit c
    \<and> last_shown_pts (player c) = effective_timestamp AV_NOPTS_VALUE frame
    \<and> current_frame c = pts_to_frame_number (last_shown_pts (player c)) st
    \<and> (last_shown_pts (player c) = 0
        \<and> 0 < sint (den (effective_rate st)) * sint (den (time_base st))
        \<and> 0 \<le> sint (num (time_base st)) * sint (num (effective_rate st))
       \<longrightarrow> current_frame c = 0)"
proof -
  obtain fc i st frame p where
    fc: "avformat_open_input inp = Some fc"
    and fv: "find_video_stream (streams fc) 0 = Some (i, st)"
    and s: "seek_and_decode_frame
         (FFPlayer_init\<lparr>fmt_ctx := Some fc, video_stream_idx := of_nat i,
            video_stream := Some st, dec_ctx := Some \<lparr>buffered = []\<rparr>,
            player_avg_frame_rate := effective_rate st\<rparr>) 0 = (Some frame, p)"
    and c: "c = \<lparr>player = snd (avframe_to_cvmat frame p),
           current_frame = pts_to_frame_number (last_shown_pts p) st,
           playing = False, should_quit = False,
           window = Some (fst (avframe_to_cvmat frame p)),
           shown_after = AV_NOPTS_VALUE\<rparr>"
    using open_player_Inr [OF assms] by blast
  let ?p0 = "FFPlayer_init\<lparr>fmt_ctx := Some fc, video_stream_idx := of_nat i,
            video_stream := Some st, dec_ctx := Some \<lparr>buffered = []\<rparr>,
            player_avg_frame_rate := effective_rate st\<rparr>"
  have "last_shown_pts p = effective_timestamp (last_shown_pts ?p0) frame"
    using outcome_delivered(1) [OF seek_and_decode_frame_outcome [of ?p0 0], of frame] s by simp
  then have l: "last_shown_pts p = effective_timestamp AV_NOPTS_VALUE frame"
    by (simp add: FFPlayer_init_def)
  have first: "i < length (streams fc) \<and> streams fc ! i = st
      \<and> codec_type st = AVMEDIA_TYPE_VIDEO
      \<and> (\<forall>j < i. codec_type (streams fc ! j) \<noteq> AVMEDIA_TYPE_VIDEO)"
    using find_video_stream_first [OF fv] by simp
  have lp: "last_shown_pts (player c) = last_shown_pts p"
    by (simp add: c avframe_to_cvmat_keeps)
  have z: "pts_to_frame_number 0 st = 0"
    if "0 < sint (den (effective_rate st)) * sint (den (time_base st))"
      and "0 \<le> sint (num (time_base st)) * sint (num (effective_rate st))"
  proof -
    have "sint (pts_to_frame_number 0 st) = 0"
      using av_rescale_q_nonneg [of 0 "av_inv_q (effective_rate st)" "time_base st"] that
      by (simp add: ptf_effective av_inv_q_def mult.commute)
    then have "sint (pts_to_frame_number 0 st) = sint (0 :: int64)" by simp
    then show ?thesis by (rule signed_word_eqI)
  qed
  have "player c = snd (avframe_to_cvmat frame p)"
    "window c = Some (fst (avframe_to_cvmat frame p))" "\<not> playing c" "\<not> should_quit c"
    "current_frame c = pts_to_frame_number (last_shown_pts (player c)) st"
    by (simp_all add: c avframe_to_cvmat_keeps)
  moreover have "last_shown_pts (player c) = effective_timestamp AV_NOPTS_VALUE frame"
    using l lp by simp
  moreover have "last_shown_pts (player c) = 0
        \<and> 0 < sint (den (effective_rate st)) * sint (den (time_base st))
        \<and> 0 \<le> sint (num (time_base st)) * sint (num (effective_rate st))
       \<longrightarrow> current_frame c = 0"
    using z lp by (simp add: c)
  ultimately show ?thesis using fc fv s first by blast
qed

text \<open>A stream that starts at timestamp 0 opens paused on frame 0.\<close>

theorem open_player_shows_first_frame_witness:
  "\<exists>c. open_player (input_of (container_of [frame_at 0, frame_at 3600])) = Inr c
     \<and> \<not> playing c \<and> \<not> should_quit c
     \<and> last_shown_pts (player c) = 0 \<and> current_frame c = 0"
proof -
  let ?inp = "input_of (container_of [frame_at 0, frame_at 3600])"
  have "\<exists>c. open_player ?inp = Inr c \<and> last_shown_pts (player c) = 0"
    by (simp add: open_player_def input_defs run_defs)
  then obtain c where o: "open_player ?inp = Inr c" and l: "last_shown_pts (player c) = 0"
    by blast
  obtain fc i st where
    fc: "avformat_open_input ?inp = Some fc"
    and fv: "find_video_stream (streams fc) 0 = Some (i, st)"
    and np: "\<not> playing c" "\<not> should_quit c"
    and z: "last_shown_pts (player c) = 0
        \<and> 0 < sint (den (effective_rate st)) * sint (den (time_base st))
        \<and> 0 \<le> sint (num (time_base st)) * sint (num (effective_rate st))
       \<longrightarrow> current_frame c = 0"
    using open_player_shows_first_frame [OF o] by blast
  have "fc = container_of [frame_at 0, frame_at 3600]"
    using fc by (simp add: input_of_def)
  then have "st = scenario_stream"
    using fv by (simp add: container_of_def scenario_stream_def AVMEDIA_TYPE_VIDEO_def)
  then have "current_frame c = 0"
    using z l by (simp add: effective_rate_def scenario_stream_def)
  with o np l show ?thesis by blast
qed

text \<open>
  The claim as stated fails on a stream whose first frame is not at timestamp 0: with
  the first frame at 3600 ticks the controller opens paused on frame 1.
\<close>

theorem open_player_counterexample:
  "map_sum id playing
     (open_player (input_of (container_of [frame_at 3600, frame_at 7200]))) = Inr False
   \<and> map_sum id current_frame
     (open_player (input_of (container_of [frame_at 3600, frame_at 7200]))) = Inr 1
   \<and> map_sum id current_frame
     (open_player (input_of (container_of [frame_at 3600, frame_at 7200]))) \<noteq> Inr 0"
  by (simp add: open_player_def input_defs run_defs)

text \<open>
  C8. The code does not keep \<open>last_shown_pts\<close> on every return without a frame: both
  functions set it before they look at what \<^verbatim>\<open>av_frame_clone\<close> returned (lines 126-128
  and 161-162). Here the second frame, at 3600 ticks, cannot be cloned. After the first
  frame \<open>last_shown_pts\<close> is 0; playing on, and likewise stepping to frame 1, returns
  no frame and leaves 3600 in \<open>last_shown_pts\<close>.
\<close>

theorem null_clone_changes_last_shown_pts:
  "last_shown_pts (snd (seek_and_decode_frame
      (player_on (container_of [frame_at 0, unclonable_frame_at 3600])) 0)) = 0
   \<and> fst (decode_next_frame (snd (seek_and_decode_frame
      (player_on (container_of [frame_at 0, unclonable_frame_at 3600])) 0))) = None
   \<and> last_shown_pts (snd (decode_next_frame (snd (seek_and_decode_frame
      (player_on (container_of [frame_at 0, unclonable_frame_at 3600])) 0)))) = 3600
   \<and> fst (seek_and_decode_frame (snd (seek_and_decode_frame
      (player_on (container_of [frame_at 0, unclonable_frame_at 3600])) 0)) 1) = None
   \<and> last_shown_pts (snd (seek_and_decode_frame (snd (seek_and_decode_frame
      (player_on (container_of [frame_at 0, unclonable_frame_at 3600])) 0)) 1)) = 3600"
  by (simp add: input_defs run_defs)

text \<open>
  C9. A new player holds \<^verbatim>\<open>AV_NOPTS_VALUE\<close> in \<open>last_shown_pts\<close>. While it does,
  a first yielded frame without any timestamp gets \<^verbatim>\<open>AV_NOPTS_VALUE + 1\<close>, which is
  below every non-negative target timestamp, so \<^verbatim>\<open>seek_and_decode_frame\<close> passes over
  it: what it returns is the clone of what the scan of the remaining frames finds, and
  that frame itself when its clone succeeds.
\<close>

theorem first_untimed_frame_is_skipped:
  assumes "fmt_ctx p = Some fc" and "dec_ctx p = Some dc" and "video_stream p = Some st"
    and "last_shown_pts p = AV_NOPTS_VALUE"
    and "seek_backward fc (frame_number_to_stream_ts n st) = Some ps"
    and "yielded_frames (video_stream_idx p) ps [] = f # fs"
    and "best_effort_timestamp f = AV_NOPTS_VALUE" and "pts f = AV_NOPTS_VALUE"
    and "0 \<le>s frame_number_to_stream_ts n st"
  shows "last_shown_pts FFPlayer_init = AV_NOPTS_VALUE
    \<and> effective_timestamp (last_shown_pts p) f = AV_NOPTS_VALUE + 1
    \<and> AV_NOPTS_VALUE + 1 <s frame_number_to_stream_ts n st
    \<and> fst (seek_and_decode_frame p n)
        = Option.bind
            (List.find (\<lambda>g. frame_number_to_stream_ts n st
                               \<le>s effective_timestamp AV_NOPTS_VALUE g) fs)
            av_frame_clone
    \<and> ((\<forall>g. List.find (\<lambda>g. frame_number_to_stream_ts n st
                               \<le>s effective_timestamp AV_NOPTS_VALUE g) fs = Some g
              \<longrightarrow> clonable g)
        \<longrightarrow> fst (seek_and_decode_frame p n)
            = List.find (\<lambda>g. frame_number_to_stream_ts n st
                               \<le>s effective_timestamp AV_NOPTS_VALUE g) fs)"
proof -
  let ?found = "List.find (\<lambda>g. frame_number_to_stream_ts n st
                               \<le>s effective_timestamp AV_NOPTS_VALUE g) fs"
  have e: "effective_timestamp (last_shown_pts p) f = AV_NOPTS_VALUE + 1"
    using assms(4,7,8) by (simp add: effective_timestamp_def)
  have l: "AV_NOPTS_VALUE + 1 <s frame_number_to_stream_ts n st"
    using assms(9) by (rule sentinel_successor_negative)
  then have "\<not> frame_number_to_stream_ts n st \<le>s AV_NOPTS_VALUE + 1"
    by (simp add: word_sless_alt word_sle_eq)
  then have r: "fst (seek_and_decode_frame p n) = Option.bind ?found av_frame_clone"
    using seek_and_decode_frame_found(1) [OF assms(1-3,5)] assms(4,6) e
    by simp
  have "Option.bind ?found av_frame_clone = ?found" if "\<forall>g. ?found = Some g \<longrightarrow> clonable g"
    using that by (cases ?found) (simp_all add: av_frame_clone_def)
  then show ?thesis
    using r e l by (simp add: FFPlayer_init_def)
qed

text \<open>
  A stream whose first frame has no timestamp: the seek to frame 0 returns the second.
\<close>

theorem first_untimed_frame_is_skipped_witness:
  "fst (seek_and_decode_frame (player_on (container_of [untimed_frame, frame_at 0])) 0)
     = Some (frame_at 0)"
proof -
  let ?fc = "container_of [untimed_frame, frame_at 0]"
  let ?ps = "map video_packet [untimed_frame, frame_at 0]"
  have ts: "frame_number_to_stream_ts 0 scenario_stream = 0"
    by (simp add: input_defs run_defs)
  have a: "fmt_ctx (player_on ?fc) = Some ?fc" "dec_ctx (player_on ?fc) = Some \<lparr>buffered = []\<rparr>"
    "video_stream (player_on ?fc) = Some scenario_stream"
    "last_shown_pts (player_on ?fc) = AV_NOPTS_VALUE"
    by (simp_all add: player_on_def FFPlayer_init_def)
  have i: "video_stream_idx (player_on ?fc) = 0" by (simp add: player_on_def FFPlayer_init_def)
  have h5: "seek_backward ?fc (frame_number_to_stream_ts 0 scenario_stream) = Some ?ps"
    by (simp add: container_of_def)
  have h6: "yielded_frames (video_stream_idx (player_on ?fc)) ?ps [] = untimed_frame # [frame_at 0]"
    by (simp add: i video_packet_def)
  have h7: "best_effort_timestamp untimed_frame = AV_NOPTS_VALUE"
    and h8: "pts untimed_frame = AV_NOPTS_VALUE"
    by (simp_all add: untimed_frame_def frame_at_def)
  have h9: "0 \<le>s frame_number_to_stream_ts 0 scenario_stream" by (simp add: ts)
  have "fst (seek_and_decode_frame (player_on ?fc) 0)
        = Option.bind
            (List.find (\<lambda>g. frame_number_to_stream_ts 0 scenario_stream
                          \<le>s effective_timestamp AV_NOPTS_VALUE g) [frame_at 0])
            av_frame_clone"
    using first_untimed_frame_is_skipped [OF a h5 h6 h7 h8 h9] by blast
  then show ?thesis
    by (simp add: ts effective_timestamp_def frame_at_def AV_NOPTS_VALUE_def av_frame_clone_def)
qed

text \<open>
  C10. With a zero numerator in the declared average rate, both conversions use the
  stream's real base rate when its numerator and denominator are nonzero, and 25/1
  otherwise; with a nonzero numerator and a zero denominator in the average rate they
  use 25/1.
\<close>

theorem rate_fallback_order:
  "(num (avg_frame_rate st) = 0 \<and> num (r_frame_rate st) \<noteq> 0 \<and> den (r_frame_rate st) \<noteq> 0 \<longrightarrow>
      frame_number_to_stream_ts n st
        = av_rescale_q n (av_inv_q (r_frame_rate st)) (time_base st)
      \<and> pts_to_frame_number t st
        = av_rescale_q t (time_base st) (av_inv_q (r_frame_rate st)))
   \<and> (num (avg_frame_rate st) = 0 \<and> (num (r_frame_rate st) = 0 \<or> den (r_frame_rate st) = 0) \<longrightarrow>
      frame_number_to_stream_ts n st
        = av_rescale_q n (av_inv_q \<lparr>num = 25, den = 1\<rparr>) (time_base st)
      \<and> pts_to_frame_number t st
        = av_rescale_q t (time_base st) (av_inv_q \<lparr>num = 25, den = 1\<rparr>))
   \<and> (num (avg_frame_rate st) \<noteq> 0 \<and> den (avg_frame_rate st) = 0 \<longrightarrow>
      frame_number_to_stream_ts n st
        = av_rescale_q n (av_inv_q \<lparr>num = 25, den = 1\<rparr>) (time_base st)
      \<and> pts_to_frame_number t st
        = av_rescale_q t (time_base st) (av_inv_q \<lparr>num = 25, den = 1\<rparr>))"
  by (simp add: frame_number_to_stream_ts_def pts_to_frame_number_def Let_def)

text \<open>
  One stream for each case: real base rate 30/1 (3000 ticks a frame), no valid rate, and
  an average rate of 30/0 (3600 ticks a frame, as for 25/1).
\<close>

theorem rate_fallback_order_witness:
  "frame_number_to_stream_ts 1 base_rate_stream = 3000
   \<and> pts_to_frame_number 3000 base_rate_stream = 1
   \<and> frame_number_to_stream_ts 1 no_rate_stream = 3600
   \<and> pts_to_frame_number 3600 no_rate_stream = 1
   \<and> frame_number_to_stream_ts 1 zero_den_stream = 3600
   \<and> pts_to_frame_number 3600 zero_den_stream = 1"
proof -
  have a: "num (avg_frame_rate base_rate_stream) = 0 \<and> num (r_frame_rate base_rate_stream) \<noteq> 0
      \<and> den (r_frame_rate base_rate_stream) \<noteq> 0"
    by (simp add: input_defs)
  have b: "num (avg_frame_rate no_rate_stream) = 0
      \<and> (num (r_frame_rate no_rate_stream) = 0 \<or> den (r_frame_rate no_rate_stream) = 0)"
    by (simp add: input_defs)
  have c: "num (avg_frame_rate zero_den_stream) \<noteq> 0 \<and> den (avg_frame_rate zero_den_stream) = 0"
    by (simp add: input_defs)
  have v: "av_rescale_q 1 (av_inv_q (r_frame_rate base_rate_stream)) (time_base base_rate_stream) = 3000"
    "av_rescale_q 3000 (time_base base_rate_stream) (av_inv_q (r_frame_rate base_rate_stream)) = 1"
    "av_rescale_q 1 (av_inv_q \<lparr>num = 25, den = 1\<rparr>) (time_base no_rate_stream) = 3600"
    "av_rescale_q 3600 (time_base no_rate_stream) (av_inv_q \<lparr>num = 25, den = 1\<rparr>) = 1"
    "av_rescale_q 1 (av_inv_q \<lparr>num = 25, den = 1\<rparr>) (time_base zero_den_stream) = 3600"
    "av_rescale_q 3600 (time_base zero_den_stream) (av_inv_q \<lparr>num = 25, den = 1\<rparr>) = 1"
    by (simp_all add: input_defs av_rescale_q_def av_inv_q_def av_rescale_rnd_near_inf_def
        rescale_nonneg_def Let_def)
  show ?thesis
    using rate_fallback_order [of base_rate_stream 1 3000] a
      rate_fallback_order [of no_rate_stream 1 3600] b
      rate_fallback_order [of zero_den_stream 1 3600] c
    by (simp only: v simp_thms)
qed

end
